theory Spec2Isabelle
  imports Complex_Main "HOL-Library.Char_ord" "HOL-Library.List_Lexorder"
begin

section \<open>JavaScript numbers\<close>

text \<open>
  A JavaScript \<^verbatim>\<open>number\<close> is an IEEE-754 binary64 value. The model keeps the three
  special values apart from the finite ones and follows the IEEE rules for them. A finite
  value carries the real number it denotes; overflow of a finite result to an infinity is
  modelled (\<open>fl\<close>), rounding of a finite result to 53 bits of precision and the sign of
  zero are not.
\<close>

datatype number = NaN | PosInfinity | NegInfinity | Finite real

definition overflow_bound :: real where
  "overflow_bound = 2 ^ 1024 - 2 ^ 970"

definition fl :: "real \<Rightarrow> number" where
  "fl r = (if overflow_bound \<le> r then PosInfinity
           else if r \<le> - overflow_bound then NegInfinity
           else Finite r)"

definition isFinite :: "number \<Rightarrow> bool" where
  "isFinite n = (case n of Finite _ \<Rightarrow> True | _ \<Rightarrow> False)"

fun num_neg :: "number \<Rightarrow> number" where
  "num_neg NaN = NaN"
| "num_neg PosInfinity = NegInfinity"
| "num_neg NegInfinity = PosInfinity"
| "num_neg (Finite a) = Finite (- a)"

fun num_add :: "number \<Rightarrow> number \<Rightarrow> number" where
  "num_add NaN _ = NaN"
| "num_add _ NaN = NaN"
| "num_add PosInfinity NegInfinity = NaN"
| "num_add NegInfinity PosInfinity = NaN"
| "num_add PosInfinity _ = PosInfinity"
| "num_add NegInfinity _ = NegInfinity"
| "num_add _ PosInfinity = PosInfinity"
| "num_add _ NegInfinity = NegInfinity"
| "num_add (Finite a) (Finite b) = fl (a + b)"

definition num_sub :: "number \<Rightarrow> number \<Rightarrow> number" where
  "num_sub a b = num_add a (num_neg b)"

fun num_sgn :: "number \<Rightarrow> real" where
  "num_sgn NaN = 0"
| "num_sgn PosInfinity = 1"
| "num_sgn NegInfinity = - 1"
| "num_sgn (Finite a) = sgn a"

definition signed_infinity :: "real \<Rightarrow> number" where
  "signed_infinity s = (if s = 0 then NaN else if 0 < s then PosInfinity else NegInfinity)"

fun num_mul :: "number \<Rightarrow> number \<Rightarrow> number" where
  "num_mul NaN _ = NaN"
| "num_mul _ NaN = NaN"
| "num_mul (Finite a) (Finite b) = fl (a * b)"
| "num_mul a b = signed_infinity (num_sgn a * num_sgn b)"

fun num_div :: "number \<Rightarrow> number \<Rightarrow> number" where
  "num_div NaN _ = NaN"
| "num_div _ NaN = NaN"
| "num_div (Finite a) (Finite b) = (if b = 0 then signed_infinity (sgn a) else fl (a / b))"
| "num_div (Finite a) _ = Finite 0"
| "num_div a (Finite b) = signed_infinity (num_sgn a * (if b < 0 then - 1 else 1))"
| "num_div _ _ = NaN"

fun num_less :: "number \<Rightarrow> number \<Rightarrow> bool" where
  "num_less NaN _ = False"
| "num_less _ NaN = False"
| "num_less (Finite a) (Finite b) = (a < b)"
| "num_less NegInfinity b = (b \<noteq> NegInfinity)"
| "num_less a PosInfinity = (a \<noteq> PosInfinity)"
| "num_less _ _ = False"

fun num_le :: "number \<Rightarrow> number \<Rightarrow> bool" where
  "num_le NaN _ = False"
| "num_le _ NaN = False"
| "num_le a b = (a = b \<or> num_less a b)"

section \<open>Strings and the primitives \<^verbatim>\<open>normalizeNumber\<close> uses\<close>

text \<open>
  Strings are lists of 8-bit characters. \<open>is_space\<close> is the class \<^verbatim>\<open>\s\<close> on them,
  \<open>is_digit\<close> the class \<^verbatim>\<open>\d\<close>. Code units beyond 8 bits are not represented; the
  last of the three replacements of \<^verbatim>\<open>normalizeNumber\<close> removes every one of them.
\<close>

definition is_space :: "char \<Rightarrow> bool" where
  "is_space c = (of_char c \<in> {9, 10, 11, 12, 13, 32, 160 :: nat})"

definition is_digit :: "char \<Rightarrow> bool" where
  "is_digit c = (c \<in> set ''0123456789'')"

definition trim :: "string \<Rightarrow> string" where
  "trim s = rev (dropWhile is_space (rev (dropWhile is_space s)))"

definition str_includes :: "string \<Rightarrow> char \<Rightarrow> bool" where
  "str_includes s c = (c \<in> set s)"

text \<open>\<^verbatim>\<open>s.replace(/c/g, "")\<close> for one character \<open>c\<close>.\<close>

definition remove_all :: "char \<Rightarrow> string \<Rightarrow> string" where
  "remove_all c s = filter (\<lambda>x. x \<noteq> c) s"

text \<open>
  \<^verbatim>\<open>s.replace(c, r)\<close> with a string pattern of one character: only the first occurrence
  is replaced.
\<close>

fun replace_first :: "char \<Rightarrow> string \<Rightarrow> string \<Rightarrow> string" where
  "replace_first c r [] = []"
| "replace_first c r (x # xs) = (if x = c then r @ xs else x # replace_first c r xs)"

text \<open>\<^verbatim>\<open>s.split(c)\<close> for one character \<open>c\<close>.\<close>

fun split_on :: "char \<Rightarrow> string \<Rightarrow> string list" where
  "split_on c [] = [[]]"
| "split_on c (x # xs) =
     (if x = c then [] # split_on c xs
      else (case split_on c xs of p # ps \<Rightarrow> (x # p) # ps | [] \<Rightarrow> [[x]]))"

definition digits_value :: "string \<Rightarrow> nat" where
  "digits_value ds = foldl (\<lambda>n c. 10 * n + (of_char c - 48)) 0 ds"

text \<open>
  \<^verbatim>\<open>parseFloat\<close>: skip leading white space, read an optional sign, then the longest
  prefix of the form digits, digits \<open>.\<close> digits or \<open>.\<close> digits; no digit at all gives
  \<open>NaN\<close>, and a value too large for binary64 an infinity. The exponent part and the
  literal \<^verbatim>\<open>Infinity\<close> are left out: the string \<^verbatim>\<open>normalizeNumber\<close> parses holds only
  digits, \<open>.\<close>, \<open>,\<close> and \<open>-\<close>.
\<close>

definition parseFloat :: "string \<Rightarrow> number" where
  "parseFloat s =
     (let t = dropWhile is_space s;
          neg = (case t of c # _ \<Rightarrow> c = CHR ''-'' | [] \<Rightarrow> False);
          u = (case t of c # r \<Rightarrow> if c = CHR ''-'' \<or> c = CHR ''+'' then r else t | [] \<Rightarrow> t);
          ip = takeWhile is_digit u;
          v = dropWhile is_digit u;
          fp = (case v of c # r \<Rightarrow> if c = CHR ''.'' then takeWhile is_digit r else []
                | [] \<Rightarrow> []);
          m = real (digits_value ip) + real (digits_value fp) / 10 ^ length fp
      in if ip = [] \<and> fp = [] then NaN else fl (if neg then - m else m))"

section \<open>\<^verbatim>\<open>normalizeNumber\<close> (src/lib/utils.ts)\<close>

datatype arg = Num number | Str string

text \<open>The two replacements that clean the trimmed input.\<close>

definition strip_currency :: "string \<Rightarrow> string" where
  "strip_currency s = filter (\<lambda>c. \<not> (c = CHR ''R'' \<or> c = CHR ''$'' \<or> is_space c)) s"

definition keep_numeric :: "string \<Rightarrow> string" where
  "keep_numeric s =
     filter (\<lambda>c. is_digit c \<or> c = CHR ''.'' \<or> c = CHR '','' \<or> c = CHR ''-'') s"

text \<open>The chain of branches on the separators of the cleaned string.\<close>

definition resolve_separators :: "string \<Rightarrow> string" where
  "resolve_separators clean =
     (if str_includes clean CHR '','' \<and> str_includes clean CHR ''.'' then
        replace_first CHR '','' ''.'' (remove_all CHR ''.'' clean)
      else if str_includes clean CHR '','' \<and> \<not> str_includes clean CHR ''.'' then
        replace_first CHR '','' ''.'' clean
      else if str_includes clean CHR ''.'' \<and> \<not> str_includes clean CHR '','' then
        (let dotCount = length (filter (\<lambda>c. c = CHR ''.'') clean) in
         if dotCount > 1 then remove_all CHR ''.'' clean
         else if dotCount = 1 then
           (case drop 1 (split_on CHR ''.'' clean) of
              p # _ \<Rightarrow>
                if p \<noteq> [] \<and> length p = 3 \<and> \<not> str_includes p CHR '',''
                then replace_first CHR ''.'' [] clean else clean
            | [] \<Rightarrow> clean)
         else clean)
      else clean)"

definition normalizeNumber :: "arg \<Rightarrow> number" where
  "normalizeNumber v =
     (case v of
        Num n \<Rightarrow> n
      | Str s \<Rightarrow>
          if s = [] then Finite 0
          else
            (let clean = resolve_separators (keep_numeric (strip_currency (trim s)));
                 n = parseFloat clean
             in if isFinite n then n else Finite 0))"

section \<open>The metrics engine (src/lib/utils.ts)\<close>

text \<open>
  Modelled from the spec: the types \<^verbatim>\<open>FormData\<close>, \<^verbatim>\<open>CalculatedData\<close> and
  \<^verbatim>\<open>ValidationResult\<close> of the module \<^verbatim>\<open>./types\<close>, which is not among the sources; the
  fields are those of the specification's data model and of the objects the code builds.
  The numeric fields of the form are numbers that may be absent (\<open>None\<close>, the value
  \<^verbatim>\<open>undefined\<close>), as the coercion of the code provides for. Messages are kept in ASCII.
\<close>

record FormData =
  vbv :: "number option"
  valoresPagosCliente :: "number option"
  vrl :: "number option"
  vrlj :: "number option"
  additionalValues :: "(string \<times> number) list"
  periodo :: string
  tenantId :: string

record CalculatedData =
  rbr :: number
  rol :: number
  rentabilidadeLiquida :: number
  retencaoIfoodPercentual :: number
  valorRetidoIfood :: number

record ValidationError =
  field :: string
  message :: string

record ValidationResult =
  isValid :: bool
  errors :: "ValidationError list"
  warnings :: "string list"

text \<open>
  \<^verbatim>\<open>Number(x) || 0\<close>: an absent field converts to \<open>NaN\<close>, and the two falsy numbers,
  \<open>NaN\<close> and zero, give 0.
\<close>

definition number_or_zero :: "number option \<Rightarrow> number" where
  "number_or_zero x =
     (let n = (case x of None \<Rightarrow> NaN | Some n \<Rightarrow> n)
      in if n = NaN \<or> n = Finite 0 then Finite 0 else n)"

definition calculateMetrics :: "FormData \<Rightarrow> CalculatedData" where
  "calculateMetrics d =
     (let v = number_or_zero (vbv d);
          p = number_or_zero (valoresPagosCliente d);
          l = number_or_zero (vrl d);
          j = number_or_zero (vrlj d);
          b = num_sub v p;
          r = num_add l j;
          rl = (if num_less (Finite 0) b then num_mul (num_div r b) (Finite 100) else Finite 0);
          rp = num_sub (Finite 100) rl;
          vr = num_sub b r
      in \<lparr>rbr = b, rol = r, rentabilidadeLiquida = rl, retencaoIfoodPercentual = rp,
          valorRetidoIfood = vr\<rparr>)"

definition msg_vbv :: string where
  "msg_vbv = ''VBV deve ser maior que zero.''"

definition msg_vpc :: string where
  "msg_vpc = ''Valores pagos pelo cliente nao pode ser negativo.''"

definition msg_base :: string where
  "msg_base = ''Receita Bruta Real (VBV - valores pagos) deve ser positiva.''"

definition msg_rol :: string where
  "msg_rol = ''ROL maior do que a Receita Bruta Real. Revise os numeros.''"

definition validateFormData :: "FormData \<Rightarrow> ValidationResult" where
  "validateFormData d =
     (let v = number_or_zero (vbv d);
          p = number_or_zero (valoresPagosCliente d);
          l = number_or_zero (vrl d);
          j = number_or_zero (vrlj d);
          b = num_sub v p;
          r = num_add l j;
          es = (if num_le v (Finite 0) then [\<lparr>field = ''vbv'', message = msg_vbv\<rparr>] else [])
             @ (if num_less p (Finite 0)
                then [\<lparr>field = ''valoresPagosCliente'', message = msg_vpc\<rparr>] else [])
             @ (if num_le b (Finite 0) then [\<lparr>field = ''base'', message = msg_base\<rparr>] else []);
          ws = (if num_less b r then [msg_rol] else [])
      in \<lparr>isValid = (length es = 0), errors = es, warnings = ws\<rparr>)"

section \<open>The persistence layer (src/lib/data.ts)\<close>

subsection \<open>Entities and the two stores\<close>

text \<open>
  The values the layer serialises. \<open>json_image v\<close> is
  \<^verbatim>\<open>JSON.parse(JSON.stringify(v))\<close>: a number that is not finite becomes \<^verbatim>\<open>null\<close>, an
  \<^verbatim>\<open>undefined\<close> element of an array becomes \<^verbatim>\<open>null\<close>, and a property whose value is
  \<^verbatim>\<open>undefined\<close> is left out (reading it still gives \<^verbatim>\<open>undefined\<close>, which is how the
  image of \<open>JUndefined\<close> itself is to be read when it is the value of a field). Values
  that JSON refuses or converts by a method of their own (functions, symbols, big
  integers, dates, cyclic objects) are not represented.
\<close>

datatype jsvalue =
  JUndefined | JNull | JBool bool | JNumber number | JString string
  | JArray "jsvalue list" | JObject "(string \<times> jsvalue) list"

fun json_image :: "jsvalue \<Rightarrow> jsvalue"
  and json_elements :: "jsvalue list \<Rightarrow> jsvalue list"
  and json_properties :: "(string \<times> jsvalue) list \<Rightarrow> (string \<times> jsvalue) list" where
  "json_image JUndefined = JUndefined"
| "json_image JNull = JNull"
| "json_image (JBool b) = JBool b"
| "json_image (JNumber n) = (if isFinite n then JNumber n else JNull)"
| "json_image (JString s) = JString s"
| "json_image (JArray xs) = JArray (json_elements xs)"
| "json_image (JObject ps) = JObject (json_properties ps)"
| "json_elements [] = []"
| "json_elements (x # xs) =
     (if x = JUndefined then JNull else json_image x) # json_elements xs"
| "json_properties [] = []"
| "json_properties (p # ps) =
     (if snd p = JUndefined then json_properties ps
      else (fst p, json_image (snd p)) # json_properties ps)"

text \<open>
  Modelled from the spec: the types \<^verbatim>\<open>User\<close> and \<^verbatim>\<open>AnalysisData\<close> of the module
  \<^verbatim>\<open>./types\<close>, which is not among the sources; the fields are those of the
  specification's data model, and the rows are the objects the code sends to and reads
  from the remote tables. The form and the metrics of an analysis are the JavaScript
  values the caller put there; the layer never looks into them, it passes them on and
  serialises them.
\<close>

record User =
  u_id :: string
  u_email :: string
  u_name :: string
  u_tenantId :: string
  u_role :: string
  u_createdAt :: string

record UsuarioRow =
  ur_id :: string
  ur_email :: string
  ur_name :: string
  ur_tenant_id :: string
  ur_role :: string
  ur_created_at :: string

record AnalysisData =
  a_id :: string
  a_userId :: string
  a_tenantId :: string
  a_formData :: jsvalue
  a_calculatedData :: jsvalue
  a_timestamp :: string

record HistoricoRow =
  h_id :: string
  h_user_id :: string
  h_tenant_id :: string
  h_form_data :: jsvalue
  h_calculated_data :: jsvalue
  h_timestamp :: string

definition user_to_row :: "User \<Rightarrow> UsuarioRow" where
  "user_to_row u =
     \<lparr>ur_id = u_id u, ur_email = u_email u, ur_name = u_name u, ur_tenant_id = u_tenantId u,
      ur_role = u_role u, ur_created_at = u_createdAt u\<rparr>"

definition analysis_to_row :: "AnalysisData \<Rightarrow> HistoricoRow" where
  "analysis_to_row a =
     \<lparr>h_id = a_id a, h_user_id = a_userId a, h_tenant_id = a_tenantId a,
      h_form_data = a_formData a, h_calculated_data = a_calculatedData a,
      h_timestamp = a_timestamp a\<rparr>"

definition row_to_analysis :: "HistoricoRow \<Rightarrow> AnalysisData" where
  "row_to_analysis r =
     \<lparr>a_id = h_id r, a_userId = h_user_id r, a_tenantId = h_tenant_id r,
      a_formData = h_form_data r, a_calculatedData = h_calculated_data r,
      a_timestamp = h_timestamp r\<rparr>"

text \<open>
  An analysis as it comes back from \<^verbatim>\<open>JSON.parse(JSON.stringify(a))\<close>; the four other
  fields are strings and come back as they are. The metrics of the engine as the value
  that is put into an analysis.
\<close>

definition analysis_image :: "AnalysisData \<Rightarrow> AnalysisData" where
  "analysis_image a =
     a\<lparr>a_formData := json_image (a_formData a),
       a_calculatedData := json_image (a_calculatedData a)\<rparr>"

definition metrics_value :: "CalculatedData \<Rightarrow> jsvalue" where
  "metrics_value m =
     JObject [(''rbr'', JNumber (rbr m)), (''rol'', JNumber (rol m)),
              (''rentabilidadeLiquida'', JNumber (rentabilidadeLiquida m)),
              (''retencaoIfoodPercentual'', JNumber (retencaoIfoodPercentual m)),
              (''valorRetidoIfood'', JNumber (valorRetidoIfood m))]"

text \<open>
  What a key of the browser's local storage holds, as \<^verbatim>\<open>JSON.parse\<close> reads it: the
  empty text, a text that is not JSON, the JSON of a user, the JSON of an array of
  analyses (kept as the array that parsing gives), or any other JSON value (which has no
  \<^verbatim>\<open>id\<close>, is no array and has no array methods). A write of
  \<^verbatim>\<open>JSON.stringify(xs)\<close> therefore stores the images of the elements of \<open>xs\<close>; a user
  has string fields only and is its own image.
\<close>

datatype stored =
  Text_Empty | Text_Invalid | Json_User User | Json_Analyses "AnalysisData list" | Json_Other

record Store =
  Usuario :: "UsuarioRow list"
  historicodeanalise :: "HistoricoRow list"
  localStorage :: "string \<rightharpoonup> stored"

text \<open>
  What a call finds around it: whether it runs in a browser, whether the two settings of
  the remote service are there, and whether the remote service answers the call's request
  (\<open>remoteOk\<close>; otherwise the request comes back with an error or throws).
\<close>

record Env =
  hasWindow :: bool
  hasUrl :: bool
  hasKey :: bool
  remoteOk :: bool

datatype exn = SyntaxError | TypeError

definition isSupabaseAvailable :: "Env \<Rightarrow> bool" where
  "isSupabaseAvailable e = (if \<not> hasWindow e then False else hasUrl e \<and> hasKey e)"

subsection \<open>The remote tables\<close>

text \<open>
  Modelled from the spec: the remote backend, reached through the client of the module
  \<^verbatim>\<open>./supabase\<close>, which is not among the sources. The spec describes it as a store of
  structured records with select, filter and order, insert, upsert with the primary key
  as conflict target (insert-or-update keyed by the conflict column) and delete by
  filter; \<^verbatim>\<open>id\<close> is the identity key of both tables, so an insert of a present \<^verbatim>\<open>id\<close> is
  refused. A row holds the values of the record it was made from; what the backend makes
  of a value that JSON cannot carry is not described and not modelled.
\<close>

definition upsert_usuario :: "UsuarioRow \<Rightarrow> UsuarioRow list \<Rightarrow> UsuarioRow list" where
  "upsert_usuario r tbl =
     (if ur_id r \<in> set (map ur_id tbl)
      then map (\<lambda>x. if ur_id x = ur_id r then r else x) tbl
      else tbl @ [r])"

definition insert_row :: "HistoricoRow \<Rightarrow> HistoricoRow list \<Rightarrow> HistoricoRow list option" where
  "insert_row r tbl = (if h_id r \<in> set (map h_id tbl) then None else Some (tbl @ [r]))"

definition upsert_row :: "HistoricoRow \<Rightarrow> HistoricoRow list \<Rightarrow> HistoricoRow list" where
  "upsert_row r tbl =
     (if h_id r \<in> set (map h_id tbl)
      then map (\<lambda>x. if h_id x = h_id r then r else x) tbl
      else tbl @ [r])"

definition upsert_rows :: "HistoricoRow list \<Rightarrow> HistoricoRow list \<Rightarrow> HistoricoRow list" where
  "upsert_rows rs tbl = fold upsert_row rs tbl"

definition select_tenant :: "string \<Rightarrow> HistoricoRow list \<Rightarrow> HistoricoRow list" where
  "select_tenant t tbl = rev (sort_key h_timestamp (filter (\<lambda>r. h_tenant_id r = t) tbl))"

definition delete_rows :: "string \<Rightarrow> string \<Rightarrow> HistoricoRow list \<Rightarrow> HistoricoRow list" where
  "delete_rows i t tbl = filter (\<lambda>r. \<not> (h_id r = i \<and> h_tenant_id r = t)) tbl"

text \<open>
  What a batch of upserts makes of one row that is in the table: each row of the batch
  with the same \<^verbatim>\<open>id\<close> takes its place in turn.
\<close>

definition replaced :: "HistoricoRow list \<Rightarrow> HistoricoRow \<Rightarrow> HistoricoRow" where
  "replaced rs x = fold (\<lambda>r y. if h_id y = h_id r then r else y) rs x"

subsection \<open>The local keys\<close>

definition user_key :: string where
  "user_key = ''ifood-user''"

definition analyses_key :: "string \<Rightarrow> string" where
  "analyses_key t = ''ifood-analyses-'' @ t"

text \<open>
  \<^verbatim>\<open>JSON.parse(localStorage.getItem(key) || '[]')\<close> used as an array: an absent key and
  the empty text give the empty array, a text that is not JSON makes the parse throw, and
  a value that is no array makes the array method that follows throw.
\<close>

definition read_array :: "stored option \<Rightarrow> exn + AnalysisData list" where
  "read_array v =
     (case v of
        None \<Rightarrow> Inr []
      | Some Text_Empty \<Rightarrow> Inr []
      | Some Text_Invalid \<Rightarrow> Inl SyntaxError
      | Some (Json_Analyses xs) \<Rightarrow> Inr xs
      | Some _ \<Rightarrow> Inl TypeError)"

subsection \<open>Users\<close>

text \<open>
  The first part of \<^verbatim>\<open>saveUser\<close>: the remote upsert, when the remote is configured and
  answers. \<open>None\<close> is the way on to the fallback.
\<close>

definition saveUser_remote :: "Env \<Rightarrow> User \<Rightarrow> Store \<Rightarrow> UsuarioRow list option" where
  "saveUser_remote e u s =
     (if isSupabaseAvailable e \<and> remoteOk e
      then Some (upsert_usuario (user_to_row u) (Usuario s)) else None)"

definition saveUser :: "Env \<Rightarrow> User \<Rightarrow> Store \<Rightarrow> Store" where
  "saveUser e u s =
     (if \<not> hasWindow e then s
      else
        (case saveUser_remote e u s of
           Some tbl \<Rightarrow>
             s\<lparr>Usuario := tbl, localStorage := (localStorage s)(user_key \<mapsto> Json_User u)\<rparr>
         | None \<Rightarrow> s\<lparr>localStorage := (localStorage s)(user_key \<mapsto> Json_User u)\<rparr>))"

text \<open>
  \<^verbatim>\<open>logout\<close>: the remote session is not part of the stores; the cached user is removed
  whatever the remote did.
\<close>

definition logout :: "Env \<Rightarrow> Store \<Rightarrow> Store" where
  "logout e s =
     (if \<not> hasWindow e then s else s\<lparr>localStorage := (localStorage s)(user_key := None)\<rparr>)"

subsection \<open>Analyses\<close>

definition saveAnalysis_remote :: "Env \<Rightarrow> AnalysisData \<Rightarrow> Store \<Rightarrow> HistoricoRow list option" where
  "saveAnalysis_remote e a s =
     (if isSupabaseAvailable e \<and> remoteOk e
      then insert_row (analysis_to_row a) (historicodeanalise s) else None)"

definition saveAnalysis :: "Env \<Rightarrow> AnalysisData \<Rightarrow> Store \<Rightarrow> (exn + unit) \<times> Store" where
  "saveAnalysis e a s =
     (if \<not> hasWindow e then (Inr (), s)
      else
        (case saveAnalysis_remote e a s of
           Some tbl \<Rightarrow> (Inr (), s\<lparr>historicodeanalise := tbl\<rparr>)
         | None \<Rightarrow>
             (let key = analyses_key (a_tenantId a) in
              case read_array (localStorage s key) of
                Inl x \<Rightarrow> (Inl x, s)
              | Inr arr \<Rightarrow>
                  (Inr (),
                   s\<lparr>localStorage :=
                       (localStorage s)(key \<mapsto> Json_Analyses (map analysis_image (arr @ [a])))\<rparr>))))"

definition loadAnalyses_remote :: "Env \<Rightarrow> string \<Rightarrow> Store \<Rightarrow> AnalysisData list option" where
  "loadAnalyses_remote e t s =
     (if isSupabaseAvailable e \<and> remoteOk e
      then Some (map row_to_analysis (select_tenant t (historicodeanalise s))) else None)"

definition loadAnalyses :: "Env \<Rightarrow> string \<Rightarrow> Store \<Rightarrow> AnalysisData list" where
  "loadAnalyses e t s =
     (if \<not> hasWindow e then []
      else
        (case loadAnalyses_remote e t s of
           Some analyses \<Rightarrow> analyses
         | None \<Rightarrow>
             (case localStorage s (analyses_key t) of
                Some (Json_Analyses xs) \<Rightarrow> xs
              | _ \<Rightarrow> [])))"

definition deleteAnalysis_remote :: "Env \<Rightarrow> string \<Rightarrow> string \<Rightarrow> Store \<Rightarrow> HistoricoRow list option" where
  "deleteAnalysis_remote e i t s =
     (if isSupabaseAvailable e \<and> remoteOk e
      then Some (delete_rows i t (historicodeanalise s)) else None)"

definition deleteAnalysis :: "Env \<Rightarrow> string \<Rightarrow> string \<Rightarrow> Store \<Rightarrow> (exn + unit) \<times> Store" where
  "deleteAnalysis e i t s =
     (if \<not> hasWindow e then (Inr (), s)
      else
        (case deleteAnalysis_remote e i t s of
           Some tbl \<Rightarrow> (Inr (), s\<lparr>historicodeanalise := tbl\<rparr>)
         | None \<Rightarrow>
             (let key = analyses_key t in
              case read_array (localStorage s key) of
                Inl x \<Rightarrow> (Inl x, s)
              | Inr arr \<Rightarrow>
                  (Inr (),
                   s\<lparr>localStorage :=
                       (localStorage s)(key \<mapsto>
                         Json_Analyses (map analysis_image (filter (\<lambda>a. a_id a \<noteq> i) arr)))\<rparr>))))"

subsection \<open>Synchronisation\<close>

definition syncLocalStorageToSupabase :: "Env \<Rightarrow> string \<Rightarrow> Store \<Rightarrow> Store" where
  "syncLocalStorageToSupabase e t s =
     (if \<not> isSupabaseAvailable e then s
      else
        (case localStorage s (analyses_key t) of
           Some (Json_Analyses xs) \<Rightarrow>
             if xs = [] then s
             else if remoteOk e
               then s\<lparr>historicodeanalise :=
                        upsert_rows (map analysis_to_row xs) (historicodeanalise s)\<rparr>
               else s
         | _ \<Rightarrow> s))"

subsection \<open>Sequences of calls\<close>

text \<open>
  The calls of the layer that write to a store, and the read of a tenant's analyses; the
  other exported functions only read. Each call comes with what it finds around it.
\<close>

datatype call =
  SaveUser User
  | Logout
  | SaveAnalysis AnalysisData
  | LoadAnalyses string
  | DeleteAnalysis string string
  | SyncLocalStorageToSupabase string

fun exec :: "Env \<times> call \<Rightarrow> Store \<Rightarrow> Store" where
  "exec (e, SaveUser u) s = saveUser e u s"
| "exec (e, Logout) s = logout e s"
| "exec (e, SaveAnalysis a) s = snd (saveAnalysis e a s)"
| "exec (e, LoadAnalyses t) s = s"
| "exec (e, DeleteAnalysis i t) s = snd (deleteAnalysis e i t s)"
| "exec (e, SyncLocalStorageToSupabase t) s = syncLocalStorageToSupabase e t s"

definition run :: "(Env \<times> call) list \<Rightarrow> Store \<Rightarrow> Store" where
  "run cs s = fold exec cs s"

text \<open>
  The partition of the local store: the list under the key of a tenant holds only records
  of that tenant.
\<close>

definition local_partitioned :: "Store \<Rightarrow> bool" where
  "local_partitioned s =
     (\<forall>t xs. localStorage s (analyses_key t) = Some (Json_Analyses xs)
        \<longrightarrow> list_all (\<lambda>a. a_tenantId a = t) xs)"

subsection \<open>Sample data\<close>

definition env_up :: Env where
  "env_up = \<lparr>hasWindow = True, hasUrl = True, hasKey = True, remoteOk = True\<rparr>"

definition env_down :: Env where
  "env_down = \<lparr>hasWindow = True, hasUrl = True, hasKey = True, remoteOk = False\<rparr>"

definition empty_store :: Store where
  "empty_store = \<lparr>Usuario = [], historicodeanalise = [], localStorage = Map.empty\<rparr>"

definition user1 :: User where
  "user1 = \<lparr>u_id = ''u1'', u_email = ''u1@example.com'', u_name = ''Ana'', u_tenantId = ''t1'',
            u_role = ''admin'', u_createdAt = ''2025-01-01T00:00:00Z''\<rparr>"

definition analysis1 :: AnalysisData where
  "analysis1 = \<lparr>a_id = ''a1'', a_userId = ''u1'', a_tenantId = ''t1'',
                a_formData = JObject [(''vbv'', JNumber (Finite 100))],
                a_calculatedData = JObject [(''rbr'', JNumber (Finite 100))],
                a_timestamp = ''2025-01-01T00:00:00Z''\<rparr>"

definition analysis2 :: AnalysisData where
  "analysis2 = \<lparr>a_id = ''a2'', a_userId = ''u2'', a_tenantId = ''t2'',
                a_formData = JObject [(''vbv'', JNumber (Finite 200))],
                a_calculatedData = JObject [(''rbr'', JNumber (Finite 200))],
                a_timestamp = ''2025-02-01T00:00:00Z''\<rparr>"

text \<open>
  A store that holds one analysis in both places, and surroundings in which the remote
  is not configured.
\<close>

definition both_store :: Store where
  "both_store = \<lparr>Usuario = [], historicodeanalise = [analysis_to_row analysis1],
                 localStorage = [analyses_key ''t1'' \<mapsto> Json_Analyses [analysis1]]\<rparr>"

definition env_unconfigured :: Env where
  "env_unconfigured = \<lparr>hasWindow = True, hasUrl = False, hasKey = True, remoteOk = True\<rparr>"

text \<open>
  An analysis whose metrics hold \<open>NaN\<close>: the metrics of a form whose two gross figures
  are both infinite.
\<close>

definition form_inf :: FormData where
  "form_inf = \<lparr>vbv = Some PosInfinity, valoresPagosCliente = Some PosInfinity,
               vrl = Some (Finite 200), vrlj = None, additionalValues = [],
               periodo = ''2025-01'', tenantId = ''t1''\<rparr>"

definition analysis_nan :: AnalysisData where
  "analysis_nan = \<lparr>a_id = ''a3'', a_userId = ''u1'', a_tenantId = ''t1'',
                   a_formData = JObject [(''vbv'', JNumber PosInfinity)],
                   a_calculatedData = metrics_value (calculateMetrics form_inf),
                   a_timestamp = ''2025-03-01T00:00:00Z''\<rparr>"

definition form1 :: FormData where
  "form1 = \<lparr>vbv = Some (Finite 100), valoresPagosCliente = Some (Finite 0),
            vrl = Some (Finite 200), vrlj = None, additionalValues = [], periodo = ''2025-01'',
            tenantId = ''t1''\<rparr>"

section \<open>The separator policy in the words of the specification\<close>

text \<open>
  The policy as the specification words it, on the cleaned string, to be compared with
  the branches of the code: with both separators every \<open>.\<close> is stripped and \<open>,\<close> is the
  decimal point; with \<open>,\<close> alone it is the decimal point; several \<open>.\<close> alone are all
  stripped; a single \<open>.\<close> is stripped when the part after it passes the test
  \<open>thousands\<close>, and kept otherwise. The specification's test is \<open>three_digits\<close>, the
  one the comments of the code name too; \<open>three_chars\<close> is the test the code makes,
  \<^verbatim>\<open>parts[1].length === 3\<close>.
\<close>

definition count_char :: "char \<Rightarrow> string \<Rightarrow> nat" where
  "count_char c s = length (filter (\<lambda>x. x = c) s)"

definition comma_to_dot :: "string \<Rightarrow> string" where
  "comma_to_dot s = map (\<lambda>c. if c = CHR '','' then CHR ''.'' else c) s"

definition after_dot :: "string \<Rightarrow> string" where
  "after_dot s = tl (dropWhile (\<lambda>c. c \<noteq> CHR ''.'') s)"

definition three_digits :: "string \<Rightarrow> bool" where
  "three_digits p = (length p = 3 \<and> list_all is_digit p)"

definition three_chars :: "string \<Rightarrow> bool" where
  "three_chars p = (length p = 3)"

definition spec_policy :: "(string \<Rightarrow> bool) \<Rightarrow> string \<Rightarrow> string" where
  "spec_policy thousands c =
     (if 0 < count_char CHR '','' c \<and> 0 < count_char CHR ''.'' c
        then comma_to_dot (remove_all CHR ''.'' c)
      else if 0 < count_char CHR '','' c then comma_to_dot c
      else if 1 < count_char CHR ''.'' c then remove_all CHR ''.'' c
      else if count_char CHR ''.'' c = 1
        then (if thousands (after_dot c) then remove_all CHR ''.'' c else c)
      else c)"

definition spec_normalize :: "(string \<Rightarrow> bool) \<Rightarrow> string \<Rightarrow> number" where
  "spec_normalize thousands s =
     (if s = [] then Finite 0
      else
        (let n = parseFloat (spec_policy thousands (keep_numeric s))
         in if isFinite n then n else Finite 0))"

section \<open>Lemmas on strings and on \<^verbatim>\<open>parseFloat\<close>\<close>

lemma digit_cases:
  "is_digit c \<longleftrightarrow>
     c = CHR ''0'' \<or> c = CHR ''1'' \<or> c = CHR ''2'' \<or> c = CHR ''3'' \<or> c = CHR ''4'' \<or>
     c = CHR ''5'' \<or> c = CHR ''6'' \<or> c = CHR ''7'' \<or> c = CHR ''8'' \<or> c = CHR ''9''"
  by (simp add: is_digit_def)

lemma digit_not_space: "is_digit c \<Longrightarrow> \<not> is_space c"
  unfolding digit_cases by (elim disjE) (simp_all add: is_space_def)

lemma numeric_not_space:
  "is_digit c \<or> c = CHR ''.'' \<or> c = CHR '','' \<or> c = CHR ''-'' \<Longrightarrow> \<not> is_space c"
  using digit_not_space [of c] by (elim disjE) (simp_all add: is_space_def)

lemma numeric_not_currency:
  "is_digit c \<or> c = CHR ''.'' \<or> c = CHR '','' \<or> c = CHR ''-'' \<Longrightarrow> c \<noteq> CHR ''R'' \<and> c \<noteq> CHR ''$''"
  unfolding digit_cases by (elim disjE) simp_all

lemma filter_dropWhile_disjoint:
  "(\<And>x. Q x \<Longrightarrow> \<not> P x) \<Longrightarrow> filter P (dropWhile Q xs) = filter P xs"
  by (induction xs) auto

lemma filter_trim:
  assumes "\<And>x. is_space x \<Longrightarrow> \<not> P x"
  shows "filter P (trim s) = filter P s"
proof -
  have "filter P (trim s) = rev (filter P (dropWhile is_space (rev (dropWhile is_space s))))"
    by (simp add: trim_def rev_filter)
  also have "\<dots> = rev (filter P (rev (dropWhile is_space s)))"
    using assms by (simp add: filter_dropWhile_disjoint)
  also have "\<dots> = filter P (dropWhile is_space s)"
    by (simp add: rev_filter)
  also have "\<dots> = filter P s"
    using assms by (simp add: filter_dropWhile_disjoint)
  finally show ?thesis .
qed

lemma cleaning_is_filter: "keep_numeric (strip_currency (trim s)) = keep_numeric s"
proof -
  have "keep_numeric (strip_currency (trim s)) = keep_numeric (trim s)"
    unfolding keep_numeric_def strip_currency_def filter_filter
    by (rule filter_cong) (use numeric_not_space numeric_not_currency in blast)+
  also have "\<dots> = keep_numeric s"
    unfolding keep_numeric_def by (rule filter_trim) (use numeric_not_space in blast)
  finally show ?thesis .
qed

lemma split_on_not_Nil: "split_on c s \<noteq> []"
  by (induction s) (auto split: list.splits)

lemma split_on_absent: "c \<notin> set s \<Longrightarrow> split_on c s = [s]"
  by (induction s) auto

lemma count_char_0: "count_char c s = 0 \<longleftrightarrow> c \<notin> set s"
  by (auto simp: count_char_def filter_empty_conv)

lemma includes_count: "str_includes s c \<longleftrightarrow> 0 < count_char c s"
  using count_char_0 [of c s] by (auto simp: str_includes_def)

lemma split_single_dot:
  "count_char CHR ''.'' s = 1 \<Longrightarrow> drop 1 (split_on CHR ''.'' s) = [after_dot s]"
proof (induction s)
  case Nil
  then show ?case by (simp add: count_char_def)
next
  case (Cons x xs)
  show ?case
  proof (cases "x = CHR ''.''")
    case True
    with Cons.prems have "count_char CHR ''.'' xs = 0" by (simp add: count_char_def)
    then have "CHR ''.'' \<notin> set xs" by (simp add: count_char_0)
    then show ?thesis using True by (simp add: split_on_absent after_dot_def)
  next
    case False
    with Cons.prems have "count_char CHR ''.'' xs = 1" by (simp add: count_char_def)
    then have ih: "drop 1 (split_on CHR ''.'' xs) = [after_dot xs]" by (rule Cons.IH)
    obtain p ps where sp: "split_on CHR ''.'' xs = p # ps"
      using split_on_not_Nil [of "CHR ''.''" xs] by (cases "split_on CHR ''.'' xs") auto
    show ?thesis using False ih sp by (simp add: after_dot_def)
  qed
qed

lemma replace_first_single:
  "count_char c s = 1 \<Longrightarrow> replace_first c [] s = remove_all c s"
proof (induction s)
  case Nil
  then show ?case by (simp add: count_char_def)
next
  case (Cons x xs)
  show ?case
  proof (cases "x = c")
    case True
    with Cons.prems have "count_char c xs = 0" by (simp add: count_char_def)
    then have "c \<notin> set xs" by (simp add: count_char_0)
    then have "filter (\<lambda>y. y \<noteq> c) xs = xs" by (auto simp: filter_id_conv)
    then show ?thesis using True by (simp add: remove_all_def)
  next
    case False
    with Cons.prems have "count_char c xs = 1" by (simp add: count_char_def)
    then show ?thesis using False Cons.IH by (simp add: remove_all_def)
  qed
qed

lemma set_after_dot:
  assumes "x \<in> set (after_dot s)"
  shows "x \<in> set s"
proof -
  have "x \<in> set (dropWhile (\<lambda>c. c \<noteq> CHR ''.'') s)"
    using assms unfolding after_dot_def
    by (cases "dropWhile (\<lambda>c. c \<noteq> CHR ''.'') s") simp_all
  then show ?thesis by (rule set_dropWhileD)
qed

lemma after_dot_no_dot:
  "count_char CHR ''.'' s = 1 \<Longrightarrow> CHR ''.'' \<notin> set (after_dot s)"
proof (induction s)
  case Nil
  then show ?case by (simp add: count_char_def)
next
  case (Cons x xs)
  show ?case
  proof (cases "x = CHR ''.''")
    case True
    with Cons.prems have "count_char CHR ''.'' xs = 0" by (simp add: count_char_def)
    then show ?thesis using True by (simp add: count_char_0 after_dot_def)
  next
    case False
    with Cons.prems have "count_char CHR ''.'' xs = 1" by (simp add: count_char_def)
    then show ?thesis using False Cons.IH by (simp add: after_dot_def)
  qed
qed


lemma comma_not_digit: "\<not> is_digit CHR '',''"
  by (simp add: is_digit_def)

lemma dot_not_digit: "\<not> is_digit CHR ''.''"
  by (simp add: is_digit_def)

lemma takeWhile_digit_comma_to_dot:
  "takeWhile is_digit (comma_to_dot s) = takeWhile is_digit s"
  by (induction s) (simp_all add: comma_to_dot_def comma_not_digit dot_not_digit)

lemma takeWhile_digit_replace_first:
  "takeWhile is_digit (replace_first CHR '','' ''.'' s) = takeWhile is_digit s"
  by (induction s) (simp_all add: comma_not_digit dot_not_digit)


lemma dropWhile_space_replace_first:
  "dropWhile is_space (replace_first CHR '','' ''.'' s) =
   replace_first CHR '','' ''.'' (dropWhile is_space s)"
  by (induction s) (simp_all add: is_space_def)

lemma dropWhile_space_comma_to_dot:
  "dropWhile is_space (comma_to_dot s) = comma_to_dot (dropWhile is_space s)"
  by (induction s) (simp_all add: comma_to_dot_def is_space_def)

lemma frac_same:
  "(case dropWhile is_digit (replace_first CHR '','' ''.'' s) of
      c # r \<Rightarrow> if c = CHR ''.'' then takeWhile is_digit r else [] | [] \<Rightarrow> []) =
   (case dropWhile is_digit (comma_to_dot s) of
      c # r \<Rightarrow> if c = CHR ''.'' then takeWhile is_digit r else [] | [] \<Rightarrow> [])"
proof (induction s)
  case Nil
  then show ?case by (simp add: comma_to_dot_def)
next
  case (Cons x xs)
  have cd: "comma_to_dot (x # xs) = (if x = CHR '','' then CHR ''.'' else x) # comma_to_dot xs"
    by (simp add: comma_to_dot_def)
  show ?case
  proof (cases "is_digit x")
    case True
    then have "x \<noteq> CHR '',''" using comma_not_digit by auto
    with True Cons.IH show ?thesis by (simp add: cd)
  next
    case False
    then show ?thesis
      by (simp add: cd dot_not_digit takeWhile_digit_comma_to_dot takeWhile_digit_replace_first)
  qed
qed

lemma parseFloat_comma:
  "parseFloat (replace_first CHR '','' ''.'' s) = parseFloat (comma_to_dot s)"
proof -
  define t where "t = dropWhile is_space s"
  have A: "dropWhile is_space (replace_first CHR '','' ''.'' s) = replace_first CHR '','' ''.'' t"
    by (simp add: t_def dropWhile_space_replace_first)
  have B: "dropWhile is_space (comma_to_dot s) = comma_to_dot t"
    by (simp add: t_def dropWhile_space_comma_to_dot)
  show ?thesis
  proof (cases t)
    case Nil
    then show ?thesis unfolding parseFloat_def A B by (simp add: comma_to_dot_def)
  next
    case (Cons c r)
    have cd: "comma_to_dot (c # r) = (if c = CHR '','' then CHR ''.'' else c) # comma_to_dot r"
      by (simp add: comma_to_dot_def)
    show ?thesis
    proof (cases "c = CHR ''-'' \<or> c = CHR ''+''")
      case True
      then show ?thesis
        unfolding parseFloat_def A B Cons cd
        using frac_same [of r]
        by (auto simp: Let_def takeWhile_digit_comma_to_dot takeWhile_digit_replace_first)
    next
      case False
      define X where "X = replace_first CHR '','' ''.'' (c # r)"
      define Y where "Y = comma_to_dot (c # r)"
      obtain x xs where Xe: "X = x # xs" and x: "x \<noteq> CHR ''-''" "x \<noteq> CHR ''+''"
        using False by (cases "c = CHR '',''") (simp_all add: X_def)
      obtain y ys where Ye: "Y = y # ys" and y: "y \<noteq> CHR ''-''" "y \<noteq> CHR ''+''"
        using False by (cases "c = CHR '',''") (simp_all add: Y_def comma_to_dot_def)
      have ip: "takeWhile is_digit (x # xs) = takeWhile is_digit (y # ys)"
        unfolding Xe [symmetric] Ye [symmetric] X_def Y_def
        by (simp only: takeWhile_digit_comma_to_dot takeWhile_digit_replace_first)
      have fp: "(case dropWhile is_digit (x # xs) of
                   c # r \<Rightarrow> if c = CHR ''.'' then takeWhile is_digit r else [] | [] \<Rightarrow> []) =
                (case dropWhile is_digit (y # ys) of
                   c # r \<Rightarrow> if c = CHR ''.'' then takeWhile is_digit r else [] | [] \<Rightarrow> [])"
        unfolding Xe [symmetric] Ye [symmetric] X_def Y_def by (rule frac_same)
      show ?thesis
        unfolding parseFloat_def A B Cons X_def [symmetric] Y_def [symmetric] Xe Ye
        using x y ip fp
        by (simp add: Let_def del: takeWhile.simps dropWhile.simps)
    qed
  qed
qed


lemma policy_parse:
  "parseFloat (resolve_separators c) = parseFloat (spec_policy three_chars c)"
proof -
  consider (both) "0 < count_char CHR '','' c" "0 < count_char CHR ''.'' c"
    | (comma) "0 < count_char CHR '','' c" "count_char CHR ''.'' c = 0"
    | (dots) "count_char CHR '','' c = 0" "1 < count_char CHR ''.'' c"
    | (dot) "count_char CHR '','' c = 0" "count_char CHR ''.'' c = 1"
    | (none) "count_char CHR '','' c = 0" "count_char CHR ''.'' c = 0"
    by linarith
  then show ?thesis
  proof cases
    case both
    then show ?thesis
      by (simp add: resolve_separators_def spec_policy_def includes_count parseFloat_comma)
  next
    case comma
    then show ?thesis
      by (simp add: resolve_separators_def spec_policy_def includes_count parseFloat_comma)
  next
    case dots
    then show ?thesis
      by (simp add: resolve_separators_def spec_policy_def includes_count
          count_char_def [symmetric])
  next
    case dot
    have nc: "\<not> str_includes (after_dot c) CHR '',''"
      using dot(1) set_after_dot [of "CHR '',''" c]
      by (auto simp: str_includes_def count_char_0)
    have ne: "length (after_dot c) = 3 \<Longrightarrow> after_dot c \<noteq> []" by auto
    have sp: "drop 1 (split_on CHR ''.'' c) = [after_dot c]"
      using dot(2) by (rule split_single_dot)
    have rf: "replace_first CHR ''.'' [] c = remove_all CHR ''.'' c"
      using dot(2) by (rule replace_first_single)
    from dot nc ne sp rf show ?thesis
      by (auto simp: resolve_separators_def spec_policy_def includes_count
          count_char_def [symmetric] three_chars_def)
  next
    case none
    then show ?thesis
      by (simp add: resolve_separators_def spec_policy_def includes_count)
  qed
qed

lemma normalizeNumber_policy:
  "normalizeNumber (Str s) = spec_normalize three_chars s"
  by (simp add: normalizeNumber_def spec_normalize_def cleaning_is_filter policy_parse Let_def)

lemma keep_numeric_digits:
  assumes "CHR ''-'' \<notin> set s" and "x \<in> set (keep_numeric s)"
  shows "is_digit x \<or> x = CHR ''.'' \<or> x = CHR '',''"
  using assms by (auto simp: keep_numeric_def)

lemma policy_three_digits:
  assumes "CHR ''-'' \<notin> set s"
  shows "spec_policy three_chars (keep_numeric s) = spec_policy three_digits (keep_numeric s)"
proof (cases "count_char CHR '','' (keep_numeric s) = 0 \<and> count_char CHR ''.'' (keep_numeric s) = 1")
  case True
  have "list_all is_digit (after_dot (keep_numeric s))"
    unfolding list_all_iff
  proof
    fix x assume x: "x \<in> set (after_dot (keep_numeric s))"
    then have "x \<in> set (keep_numeric s)" by (rule set_after_dot)
    then have "is_digit x \<or> x = CHR ''.'' \<or> x = CHR '',''"
      using assms keep_numeric_digits by blast
    moreover have "x \<noteq> CHR ''.''" using True x after_dot_no_dot by blast
    moreover have "x \<noteq> CHR '',''"
      using True \<open>x \<in> set (keep_numeric s)\<close> by (auto simp: count_char_0)
    ultimately show "is_digit x" by blast
  qed
  then show ?thesis by (simp add: spec_policy_def three_chars_def three_digits_def)
next
  case False
  then show ?thesis by (auto simp: spec_policy_def)
qed

lemma normalizeNumber_finite: "isFinite (normalizeNumber (Str s))"
  by (simp add: normalizeNumber_def isFinite_def Let_def split: number.splits)

lemma digits_value_nines_aux:
  "foldl (\<lambda>n c. 10 * n + (of_char c - 48)) (a::nat) (replicate k CHR ''9'') = (a + 1) * 10 ^ k - 1"
proof (induction k arbitrary: a)
  case 0
  then show ?case by simp
next
  case (Suc k)
  have "(10 * a + 9 + 1) * 10 ^ k = (a + 1) * 10 ^ Suc k" by (simp add: algebra_simps)
  then show ?case by (simp add: Suc.IH)
qed

lemma digits_value_nines: "digits_value (replicate k CHR ''9'') = 10 ^ k - 1"
  by (simp add: digits_value_def digits_value_nines_aux)

lemma nine_digit: "is_digit CHR ''9''"
  by (simp add: is_digit_def)

lemma digit_not_sign: "is_digit c \<Longrightarrow> c \<noteq> CHR ''-'' \<and> c \<noteq> CHR ''+''"
  unfolding digit_cases by (elim disjE) simp_all

lemma parseFloat_digits:
  assumes "ds \<noteq> []" and "list_all is_digit ds"
  shows "parseFloat ds = fl (real (digits_value ds))"
proof -
  obtain d r where ds: "ds = d # r" using assms(1) by (cases ds) auto
  have d: "is_digit d" using assms(2) ds by simp
  have sp: "dropWhile is_space ds = ds" using d ds digit_not_space by simp
  have tw: "takeWhile is_digit ds = ds" using assms(2) by (simp add: list_all_iff)
  have dw: "dropWhile is_digit ds = []" using assms(2) by (simp add: list_all_iff)
  have sg: "d \<noteq> CHR ''-''" "d \<noteq> CHR ''+''" using d digit_not_sign by auto
  have u: "(case ds of c # r \<Rightarrow> if c = CHR ''-'' \<or> c = CHR ''+'' then r else ds | [] \<Rightarrow> ds) = ds"
    using sg ds by simp
  have n: "(case ds of c # _ \<Rightarrow> c = CHR ''-'' | [] \<Rightarrow> False) = False"
    using sg ds by simp
  have z: "digits_value [] = 0" by (simp add: digits_value_def)
  show ?thesis
    unfolding parseFloat_def sp Let_def u n tw dw using assms(1) by (simp add: z)
qed

lemma parseFloat_nines: "parseFloat (replicate 400 CHR ''9'') = PosInfinity"
proof -
  have "parseFloat (replicate 400 CHR ''9'') = fl (real (digits_value (replicate 400 CHR ''9'')))"
    by (rule parseFloat_digits) (simp_all add: list_all_iff nine_digit)
  also have "\<dots> = PosInfinity"
    by (simp add: digits_value_nines fl_def overflow_bound_def)
  finally show ?thesis .
qed

lemma normalizeNumber_nines: "normalizeNumber (Str (replicate 400 CHR ''9'')) = Finite 0"
proof -
  have "normalizeNumber (Str (replicate 400 CHR ''9'')) = spec_normalize three_chars (replicate 400 CHR ''9'')"
    by (rule normalizeNumber_policy)
  also have "\<dots> = Finite 0"
    using nine_digit parseFloat_nines
    by (simp add: spec_normalize_def keep_numeric_def spec_policy_def count_char_def isFinite_def)
  finally show ?thesis .
qed

section \<open>Lemmas on the remote tables and the stores\<close>

lemma json_image_undefined: "json_image v = JUndefined \<longleftrightarrow> v = JUndefined"
  by (cases v) auto

lemma json_image_idem:
  "json_image (json_image v) = json_image v"
  "json_elements (json_elements xs) = json_elements xs"
  "json_properties (json_properties ps) = json_properties ps"
  by (induction v and xs and ps rule: json_image_json_elements_json_properties.induct)
    (auto simp: json_image_undefined isFinite_def)

lemma analysis_image_idem: "analysis_image (analysis_image a) = analysis_image a"
  by (simp add: analysis_image_def json_image_idem)

lemma analysis_image_id: "a_id (analysis_image a) = a_id a"
  by (simp add: analysis_image_def)

lemma analysis_image_tenant: "a_tenantId (analysis_image a) = a_tenantId a"
  by (simp add: analysis_image_def)

lemma filter_id_images:
  "filter (\<lambda>a. a_id a \<noteq> i) (map analysis_image xs) =
   map analysis_image (filter (\<lambda>a. a_id a \<noteq> i) xs)"
  by (induction xs) (simp_all add: analysis_image_id)

lemma delete_local_idem:
  "map analysis_image (filter (\<lambda>a. a_id a \<noteq> i)
     (map analysis_image (filter (\<lambda>a. a_id a \<noteq> i) xs))) =
   map analysis_image (filter (\<lambda>a. a_id a \<noteq> i) xs)"
  by (simp add: filter_id_images analysis_image_idem)

lemma analysis1_image: "analysis_image analysis1 = analysis1"
  by (simp add: analysis_image_def analysis1_def isFinite_def)

lemma analysis2_image: "analysis_image analysis2 = analysis2"
  by (simp add: analysis_image_def analysis2_def isFinite_def)

lemma row_roundtrip: "row_to_analysis (analysis_to_row a) = a"
  by (simp add: row_to_analysis_def analysis_to_row_def)

lemma row_tenant: "a_tenantId (row_to_analysis r) = h_tenant_id r"
  by (simp add: row_to_analysis_def)

lemma set_select_tenant: "set (select_tenant t tbl) = {r \<in> set tbl. h_tenant_id r = t}"
  by (auto simp: select_tenant_def)

lemma delete_rows_idem: "delete_rows i t (delete_rows i t tbl) = delete_rows i t tbl"
  by (simp add: delete_rows_def)

lemma read_array_written: "read_array (Some (Json_Analyses xs)) = Inr xs"
  by (simp add: read_array_def)

lemma deleteAnalysis_twice:
  "deleteAnalysis e i t (snd (deleteAnalysis e i t s)) = deleteAnalysis e i t s"
proof (cases "hasWindow e")
  case False
  then show ?thesis by (simp add: deleteAnalysis_def)
next
  case True
  show ?thesis
  proof (cases "isSupabaseAvailable e \<and> remoteOk e")
    case remote: True
    with True show ?thesis
      by (simp add: deleteAnalysis_def deleteAnalysis_remote_def delete_rows_idem)
  next
    case fallback: False
    then have rn: "\<And>s'. deleteAnalysis_remote e i t s' = None"
      by (simp add: deleteAnalysis_remote_def)
    show ?thesis
    proof (cases "read_array (localStorage s (analyses_key t))")
      case (Inl x)
      with True show ?thesis
        by (simp add: deleteAnalysis_def rn)
    next
      case (Inr arr)
      with True show ?thesis
        by (simp add: deleteAnalysis_def rn read_array_written delete_local_idem)
    qed
  qed
qed

lemma deleteAnalysis_same_path:
  assumes "hasWindow e1 = hasWindow e2"
    and "(isSupabaseAvailable e1 \<and> remoteOk e1) = (isSupabaseAvailable e2 \<and> remoteOk e2)"
  shows "deleteAnalysis e2 i t s = deleteAnalysis e1 i t s"
  using assms by (simp add: deleteAnalysis_def deleteAnalysis_remote_def)


lemma upsert_row_ids:
  "set (map h_id (upsert_row r tbl)) = insert (h_id r) (set (map h_id tbl))"
  by (auto simp: upsert_row_def)

lemma map_replace_ids:
  "map h_id (map (\<lambda>x. if h_id x = h_id r then r else x) tbl) = map h_id tbl"
  by (induction tbl) auto

lemma upsert_row_present:
  "h_id r \<in> set (map h_id tbl) \<Longrightarrow>
   upsert_row r tbl = map (\<lambda>x. if h_id x = h_id r then r else x) tbl"
  by (simp add: upsert_row_def)

lemma upsert_row_distinct:
  assumes "distinct (map h_id tbl)"
  shows "distinct (map h_id (upsert_row r tbl))"
proof (cases "h_id r \<in> set (map h_id tbl)")
  case True
  then have "map h_id (upsert_row r tbl) = map h_id tbl"
    by (simp only: upsert_row_present map_replace_ids)
  with assms show ?thesis by simp
next
  case False
  with assms show ?thesis by (simp add: upsert_row_def)
qed

lemma upsert_rows_distinct:
  "distinct (map h_id tbl) \<Longrightarrow> distinct (map h_id (upsert_rows rs tbl))"
  unfolding upsert_rows_def
  by (induction rs arbitrary: tbl) (simp_all add: upsert_row_distinct)

lemma upsert_rows_ids:
  "set (map h_id (upsert_rows rs tbl)) = set (map h_id rs) \<union> set (map h_id tbl)"
  unfolding upsert_rows_def
  by (induction rs arbitrary: tbl) (auto simp: upsert_row_ids simp del: set_map)

lemma replaced_id: "h_id (replaced rs y) = h_id y"
  unfolding replaced_def by (induction rs arbitrary: y) simp_all

lemma replaced_Cons:
  "replaced (r # rs) y = replaced rs (if h_id y = h_id r then r else y)"
  by (simp add: replaced_def)

lemma replaced_snoc:
  "replaced (rs @ [r]) y = (if h_id (replaced rs y) = h_id r then r else replaced rs y)"
  by (simp add: replaced_def)

lemma upsert_rows_present:
  "set (map h_id rs) \<subseteq> set (map h_id tbl) \<Longrightarrow> upsert_rows rs tbl = map (replaced rs) tbl"
proof (induction rs arbitrary: tbl)
  case Nil
  then show ?case by (simp add: upsert_rows_def replaced_def)
next
  case (Cons r rs)
  let ?f = "\<lambda>x. if h_id x = h_id r then r else x"
  from Cons.prems have pr: "h_id r \<in> set (map h_id tbl)" by simp
  have ids: "map h_id (map ?f tbl) = map h_id tbl" by (rule map_replace_ids)
  have "set (map h_id rs) \<subseteq> set (map h_id (map ?f tbl))"
    using Cons.prems unfolding ids by simp
  then have ih: "upsert_rows rs (map ?f tbl) = map (replaced rs) (map ?f tbl)"
    by (rule Cons.IH)
  have "upsert_rows (r # rs) tbl = upsert_rows rs (upsert_row r tbl)"
    by (simp add: upsert_rows_def)
  also have "\<dots> = upsert_rows rs (map ?f tbl)"
    using pr by (simp only: upsert_row_present)
  also have "\<dots> = map (replaced rs) (map ?f tbl)" by (rule ih)
  also have "\<dots> = map (replaced (r # rs)) tbl"
    by (simp add: replaced_Cons)
  finally show ?case .
qed

lemma set_upsert_row:
  assumes "y \<in> set (upsert_row r tbl)"
  shows "y = r \<or> (y \<in> set tbl \<and> h_id y \<noteq> h_id r)"
proof (cases "h_id r \<in> set (map h_id tbl)")
  case True
  with assms have "y \<in> set (map (\<lambda>x. if h_id x = h_id r then r else x) tbl)"
    by (simp only: upsert_row_present)
  then obtain w where w: "w \<in> set tbl" "y = (if h_id w = h_id r then r else w)"
    by auto
  then show ?thesis by (cases "h_id w = h_id r") simp_all
next
  case False
  with assms have "y \<in> set (tbl @ [r])" by (simp add: upsert_row_def)
  then have "y = r \<or> y \<in> set tbl" by auto
  moreover have "h_id y \<noteq> h_id r" if "y \<in> set tbl"
  proof
    assume "h_id y = h_id r"
    with that have "h_id r \<in> set (map h_id tbl)" by (metis image_eqI set_map)
    with False show False by contradiction
  qed
  ultimately show ?thesis by blast
qed

lemma upsert_rows_fixed:
  "y \<in> set (upsert_rows rs tbl) \<Longrightarrow> replaced rs y = y"
proof (induction rs arbitrary: y rule: rev_induct)
  case Nil
  then show ?case by (simp add: replaced_def)
next
  case (snoc r rs)
  have "upsert_rows (rs @ [r]) tbl = upsert_row r (upsert_rows rs tbl)"
    by (simp add: upsert_rows_def)
  with snoc.prems have "y = r \<or> (y \<in> set (upsert_rows rs tbl) \<and> h_id y \<noteq> h_id r)"
    using set_upsert_row by simp
  then show ?case
  proof
    assume "y = r"
    then show ?thesis by (simp add: replaced_snoc replaced_id)
  next
    assume y: "y \<in> set (upsert_rows rs tbl) \<and> h_id y \<noteq> h_id r"
    then have "replaced rs y = y" using snoc.IH by blast
    with y show ?thesis by (simp add: replaced_snoc)
  qed
qed

lemma upsert_rows_idem: "upsert_rows rs (upsert_rows rs tbl) = upsert_rows rs tbl"
proof -
  have "set (map h_id rs) \<subseteq> set (map h_id (upsert_rows rs tbl))"
    unfolding upsert_rows_ids by blast
  then have "upsert_rows rs (upsert_rows rs tbl) = map (replaced rs) (upsert_rows rs tbl)"
    by (rule upsert_rows_present)
  also have "\<dots> = upsert_rows rs tbl"
    by (rule map_idI) (rule upsert_rows_fixed)
  finally show ?thesis .
qed

lemma sync_local: "localStorage (syncLocalStorageToSupabase e t s) = localStorage s"
  by (simp add: syncLocalStorageToSupabase_def split: option.splits stored.splits)

lemma sync_after_success:
  assumes "isSupabaseAvailable e1" and "remoteOk e1"
  shows "syncLocalStorageToSupabase e2 t (syncLocalStorageToSupabase e1 t s) =
         syncLocalStorageToSupabase e1 t s"
  using assms
  by (simp add: syncLocalStorageToSupabase_def upsert_rows_idem
      split: option.splits stored.splits)

lemma sync_idem:
  "syncLocalStorageToSupabase e t (syncLocalStorageToSupabase e t s) =
   syncLocalStorageToSupabase e t s"
  by (simp add: syncLocalStorageToSupabase_def upsert_rows_idem
      split: option.splits stored.splits)

lemma sync_distinct:
  "distinct (map h_id (historicodeanalise s)) \<Longrightarrow>
   distinct (map h_id (historicodeanalise (syncLocalStorageToSupabase e t s)))"
  by (simp add: syncLocalStorageToSupabase_def upsert_rows_distinct
      split: option.splits stored.splits)

lemma sync_covers:
  assumes "isSupabaseAvailable e" and "remoteOk e"
    and "localStorage s (analyses_key t) = Some (Json_Analyses xs)"
  shows "set (map a_id xs) \<subseteq> set (map h_id (historicodeanalise (syncLocalStorageToSupabase e t s)))"
proof (cases "xs = []")
  case True
  then show ?thesis by simp
next
  case False
  have m: "map h_id (map analysis_to_row xs) = map a_id xs"
    by (induction xs) (simp_all add: analysis_to_row_def)
  have "historicodeanalise (syncLocalStorageToSupabase e t s) =
        upsert_rows (map analysis_to_row xs) (historicodeanalise s)"
    using assms False by (simp add: syncLocalStorageToSupabase_def)
  then have "set (map h_id (historicodeanalise (syncLocalStorageToSupabase e t s))) =
        set (map a_id xs) \<union> set (map h_id (historicodeanalise s))"
    by (simp only: upsert_rows_ids m)
  then show ?thesis by blast
qed

lemma analyses_key_inj: "analyses_key t = analyses_key t' \<longleftrightarrow> t = t'"
  by (simp add: analyses_key_def)

lemma user_key_other: "analyses_key t \<noteq> user_key"
  by (simp add: analyses_key_def user_key_def)

lemma read_array_partitioned:
  assumes "local_partitioned s" and "read_array (localStorage s (analyses_key t)) = Inr arr"
  shows "list_all (\<lambda>a. a_tenantId a = t) arr"
proof (cases "localStorage s (analyses_key t)")
  case None
  with assms(2) show ?thesis by (simp add: read_array_def)
next
  case (Some v)
  with assms show ?thesis
    by (cases v) (auto simp: read_array_def local_partitioned_def)
qed

lemma saveUser_partitioned: "local_partitioned s \<Longrightarrow> local_partitioned (saveUser e u s)"
  by (auto simp: saveUser_def local_partitioned_def user_key_other split: option.splits)

lemma logout_partitioned: "local_partitioned s \<Longrightarrow> local_partitioned (logout e s)"
  by (auto simp: logout_def local_partitioned_def user_key_other)

lemma saveAnalysis_partitioned:
  assumes "local_partitioned s"
  shows "local_partitioned (snd (saveAnalysis e a s))"
proof (cases "hasWindow e")
  case False
  with assms show ?thesis by (simp add: saveAnalysis_def)
next
  case True
  show ?thesis
  proof (cases "saveAnalysis_remote e a s")
    case (Some tbl)
    with True assms show ?thesis by (simp add: saveAnalysis_def local_partitioned_def)
  next
    case None
    show ?thesis
    proof (cases "read_array (localStorage s (analyses_key (a_tenantId a)))")
      case (Inl x)
      with True None assms show ?thesis by (simp add: saveAnalysis_def)
    next
      case (Inr arr)
      then have arr: "list_all (\<lambda>b. a_tenantId b = a_tenantId a) arr"
        using assms read_array_partitioned by blast
      have s': "snd (saveAnalysis e a s) =
          s\<lparr>localStorage := (localStorage s)(analyses_key (a_tenantId a) \<mapsto>
            Json_Analyses (map analysis_image (arr @ [a])))\<rparr>"
        using True None Inr by (simp add: saveAnalysis_def)
      show ?thesis
        unfolding s' local_partitioned_def
        using assms arr
        by (auto simp: local_partitioned_def analyses_key_inj list_all_iff analysis_image_tenant)
    qed
  qed
qed

lemma deleteAnalysis_partitioned:
  assumes "local_partitioned s"
  shows "local_partitioned (snd (deleteAnalysis e i t s))"
proof (cases "hasWindow e")
  case False
  with assms show ?thesis by (simp add: deleteAnalysis_def)
next
  case True
  show ?thesis
  proof (cases "deleteAnalysis_remote e i t s")
    case (Some tbl)
    with True assms show ?thesis by (simp add: deleteAnalysis_def local_partitioned_def)
  next
    case None
    show ?thesis
    proof (cases "read_array (localStorage s (analyses_key t))")
      case (Inl x)
      with True None assms show ?thesis by (simp add: deleteAnalysis_def)
    next
      case (Inr arr)
      then have arr: "list_all (\<lambda>b. a_tenantId b = t) arr"
        using assms read_array_partitioned by blast
      have s': "snd (deleteAnalysis e i t s) =
          s\<lparr>localStorage := (localStorage s)(analyses_key t \<mapsto>
            Json_Analyses (map analysis_image (filter (\<lambda>a. a_id a \<noteq> i) arr)))\<rparr>"
        using True None Inr by (simp add: deleteAnalysis_def)
      show ?thesis
        unfolding s' local_partitioned_def
        using assms arr
        by (auto simp: local_partitioned_def analyses_key_inj list_all_iff analysis_image_tenant)
    qed
  qed
qed

lemma sync_partitioned:
  "local_partitioned s \<Longrightarrow> local_partitioned (syncLocalStorageToSupabase e t s)"
  by (simp add: local_partitioned_def sync_local)

lemma exec_partitioned: "local_partitioned s \<Longrightarrow> local_partitioned (exec c s)"
proof (cases c)
  case (Pair e k)
  assume "local_partitioned s"
  then show ?thesis
    unfolding Pair
    by (cases k)
      (simp_all add: saveUser_partitioned logout_partitioned saveAnalysis_partitioned
        deleteAnalysis_partitioned sync_partitioned)
qed

lemma run_partitioned: "local_partitioned s \<Longrightarrow> local_partitioned (run cs s)"
  unfolding run_def by (induction cs arbitrary: s) (simp_all add: exec_partitioned)

lemma loadAnalyses_partitioned:
  assumes "local_partitioned s"
  shows "list_all (\<lambda>a. a_tenantId a = t) (loadAnalyses e t s)"
proof (cases "hasWindow e")
  case False
  then show ?thesis by (simp add: loadAnalyses_def)
next
  case True
  show ?thesis
  proof (cases "isSupabaseAvailable e \<and> remoteOk e")
    case remote: True
    with True show ?thesis
      by (auto simp: loadAnalyses_def loadAnalyses_remote_def list_all_iff set_select_tenant row_tenant)
  next
    case False
    then have "loadAnalyses_remote e t s = None" by (simp add: loadAnalyses_remote_def)
    with True assms show ?thesis
      by (auto simp: loadAnalyses_def local_partitioned_def split: option.splits stored.splits)
  qed
qed

lemma empty_partitioned: "local_partitioned \<lparr>Usuario = us, historicodeanalise = hs, localStorage = Map.empty\<rparr>"
  by (simp add: local_partitioned_def)


lemma roundtrip_same_path:
  assumes w1: "hasWindow e1" and w2: "hasWindow e2" and img: "analysis_image a = a"
    and sv: "saveAnalysis e1 a s = (Inr (), s')"
    and path: "(saveAnalysis_remote e1 a s \<noteq> None) = (loadAnalyses_remote e2 (a_tenantId a) s' \<noteq> None)"
  shows "a \<in> set (loadAnalyses e2 (a_tenantId a) s')"
proof (cases "saveAnalysis_remote e1 a s")
  case (Some tbl)
  then have tbl: "tbl = historicodeanalise s @ [analysis_to_row a]"
    by (auto simp: saveAnalysis_remote_def insert_row_def split: if_splits)
  from Some w1 sv have s': "s' = s\<lparr>historicodeanalise := tbl\<rparr>"
    by (simp add: saveAnalysis_def)
  from Some path have "loadAnalyses_remote e2 (a_tenantId a) s' \<noteq> None" by simp
  then have ld: "loadAnalyses e2 (a_tenantId a) s' =
      map row_to_analysis (select_tenant (a_tenantId a) (historicodeanalise s'))"
    using w2 by (auto simp: loadAnalyses_def loadAnalyses_remote_def split: if_splits)
  have "analysis_to_row a \<in> set (select_tenant (a_tenantId a) (historicodeanalise s'))"
    by (simp add: set_select_tenant s' tbl analysis_to_row_def)
  then have "row_to_analysis (analysis_to_row a) \<in> set (loadAnalyses e2 (a_tenantId a) s')"
    unfolding ld set_map by (rule imageI)
  then show ?thesis by (simp add: row_roundtrip)
next
  case None
  with path have ln: "loadAnalyses_remote e2 (a_tenantId a) s' = None" by simp
  obtain arr where arr: "read_array (localStorage s (analyses_key (a_tenantId a))) = Inr arr"
    using None w1 sv by (cases "read_array (localStorage s (analyses_key (a_tenantId a)))")
      (simp_all add: saveAnalysis_def)
  have s': "s' = s\<lparr>localStorage := (localStorage s)(analyses_key (a_tenantId a) \<mapsto>
      Json_Analyses (map analysis_image (arr @ [a])))\<rparr>"
    using None w1 sv arr by (simp add: saveAnalysis_def)
  show ?thesis using w2 ln img by (simp add: loadAnalyses_def s')
qed

lemmas normalize_eval =
  normalizeNumber_def trim_def is_space_def strip_currency_def keep_numeric_def is_digit_def
  resolve_separators_def str_includes_def remove_all_def parseFloat_def digits_value_def
  fl_def overflow_bound_def isFinite_def

lemmas spec_eval =
  spec_normalize_def spec_policy_def count_char_def three_digits_def three_chars_def
  after_dot_def comma_to_dot_def

section \<open>The numeric normaliser\<close>

text \<open>
  C10. An argument that is already a number is returned unchanged, before any finiteness
  check: \<open>NaN\<close> and the infinities come back as they are, so the guarantee of a finite
  result is one for string arguments only.
\<close>

theorem normalizeNumber_number_unchanged:
  "(\<forall>n. normalizeNumber (Num n) = n)
   \<and> normalizeNumber (Num NaN) = NaN
   \<and> normalizeNumber (Num PosInfinity) = PosInfinity
   \<and> normalizeNumber (Num NegInfinity) = NegInfinity
   \<and> \<not> isFinite (normalizeNumber (Num NaN))
   \<and> \<not> isFinite (normalizeNumber (Num PosInfinity))
   \<and> \<not> isFinite (normalizeNumber (Num NegInfinity))"
  by (simp add: normalizeNumber_def isFinite_def)

text \<open>
  C7. On every string \<^verbatim>\<open>normalizeNumber\<close> returns a finite number. No operation of its
  body can throw on a string, so the model has no error result; a parse that gives \<open>NaN\<close>
  (as on \<^verbatim>\<open>"-"\<close>) or an infinity (as on four hundred nines) is replaced by 0.
\<close>

theorem normalizeNumber_string_finite:
  "(\<forall>s. isFinite (normalizeNumber (Str s)))
   \<and> (\<forall>s. \<exists>r. normalizeNumber (Str s) = Finite r)
   \<and> parseFloat ''-'' = NaN
   \<and> normalizeNumber (Str ''-'') = Finite 0
   \<and> parseFloat (replicate 400 CHR ''9'') = PosInfinity
   \<and> normalizeNumber (Str (replicate 400 CHR ''9'')) = Finite 0"
proof -
  have fin: "isFinite (normalizeNumber (Str s))" for s
    by (rule normalizeNumber_finite)
  have ex: "\<exists>r. normalizeNumber (Str s) = Finite r" for s
    using fin [of s] by (cases "normalizeNumber (Str s)") (simp_all add: isFinite_def)
  have dash: "parseFloat ''-'' = NaN"
    by (simp add: parseFloat_def is_space_def is_digit_def)
  have dash0: "normalizeNumber (Str ''-'') = Finite 0"
    by (simp add: normalize_eval)
  show ?thesis
    using fin ex dash dash0 parseFloat_nines normalizeNumber_nines by blast
qed

text \<open>
  C2. The stated policy strips a single \<open>.\<close> exactly when three digits follow it, and
  the comments of the code say the same; the code tests the length of the part after the
  dot. On \<^verbatim>\<open>"1.2-3"\<close> that part is \<^verbatim>\<open>"2-3"\<close>, three characters that are not three
  digits: the code strips the dot and returns 12, where the policy keeps it and gives 1.2.
\<close>

theorem normalizeNumber_three_digits_counterexample:
  "normalizeNumber (Str ''1.2-3'') = Finite 12
   \<and> spec_normalize three_digits ''1.2-3'' = Finite (6 / 5)
   \<and> normalizeNumber (Str ''1.2-3'') \<noteq> spec_normalize three_digits ''1.2-3''"
  by (simp add: normalize_eval spec_eval)

text \<open>
  Where the code and the stated policy agree: on every string without \<open>-\<close> the result
  of \<^verbatim>\<open>normalizeNumber\<close> is the one the policy gives (both separators, every \<open>.\<close>
  stripped and \<open>,\<close> the decimal point; \<open>,\<close> alone, the decimal point; several \<open>.\<close>, all
  stripped; one \<open>.\<close>, stripped exactly when three digits follow it), and the six
  examples of the specification hold.
\<close>

lemma normalizeNumber_policy_without_dash:
  "(\<forall>s. CHR ''-'' \<notin> set s \<longrightarrow> normalizeNumber (Str s) = spec_normalize three_digits s)
   \<and> normalizeNumber (Str ''50.889,20'') = Finite 50889.20
   \<and> normalizeNumber (Str ''1.234.567,89'') = Finite 1234567.89
   \<and> normalizeNumber (Str ''123,45'') = Finite 123.45
   \<and> normalizeNumber (Str ''1234'') = Finite 1234
   \<and> normalizeNumber (Str ''1.000'') = Finite 1000
   \<and> normalizeNumber (Str ''123.45'') = Finite 123.45"
proof -
  have b: "normalizeNumber (Str s) = spec_normalize three_digits s" if "CHR ''-'' \<notin> set s" for s
    using that by (simp add: normalizeNumber_policy spec_normalize_def policy_three_digits)
  have e1: "normalizeNumber (Str ''50.889,20'') = Finite 50889.20"
    by (simp add: normalize_eval)
  have e2: "normalizeNumber (Str ''1.234.567,89'') = Finite 1234567.89"
    by (simp add: normalize_eval)
  have e3: "normalizeNumber (Str ''123,45'') = Finite 123.45"
    by (simp add: normalize_eval)
  have e4: "normalizeNumber (Str ''1234'') = Finite 1234"
    by (simp add: normalize_eval)
  have e5: "normalizeNumber (Str ''1.000'') = Finite 1000"
    by (simp add: normalize_eval)
  have e6: "normalizeNumber (Str ''123.45'') = Finite 123.45"
    by (simp add: normalize_eval)
  show ?thesis using b e1 e2 e3 e4 e5 e6 by blast
qed

section \<open>The metrics engine\<close>

text \<open>
  C3. \<^verbatim>\<open>calculateMetrics\<close> is a function of its argument alone and gives a result on
  every form. With the four numeric fields coerced (an absent field, \<open>NaN\<close> and zero
  give 0) it returns \<open>rbr = vbv - valoresPagosCliente\<close>, \<open>rol = vrl + vrlj\<close>,
  \<open>rentabilidadeLiquida = (rol / rbr) * 100\<close> when \<open>rbr > 0\<close> and 0 otherwise,
  \<open>retencaoIfoodPercentual = 100 - rentabilidadeLiquida\<close> and
  \<open>valorRetidoIfood = rbr - rol\<close>; on the form with 100000, 4000, 70000 and 5000 these
  are 96000, 75000, 78.125, 21.875 and 21000.
\<close>

theorem calculateMetrics_formulas:
  "(let v = number_or_zero (vbv d);
        p = number_or_zero (valoresPagosCliente d);
        l = number_or_zero (vrl d);
        j = number_or_zero (vrlj d);
        m = calculateMetrics d
    in rbr m = num_sub v p
       \<and> rol m = num_add l j
       \<and> rentabilidadeLiquida m =
           (if num_less (Finite 0) (rbr m) then num_mul (num_div (rol m) (rbr m)) (Finite 100)
            else Finite 0)
       \<and> retencaoIfoodPercentual m = num_sub (Finite 100) (rentabilidadeLiquida m)
       \<and> valorRetidoIfood m = num_sub (rbr m) (rol m))
   \<and> number_or_zero None = Finite 0
   \<and> number_or_zero (Some NaN) = Finite 0
   \<and> number_or_zero (Some (Finite 0)) = Finite 0
   \<and> calculateMetrics
        \<lparr>vbv = Some (Finite 100000), valoresPagosCliente = Some (Finite 4000),
         vrl = Some (Finite 70000), vrlj = Some (Finite 5000), additionalValues = av,
         periodo = pe, tenantId = te\<rparr>
       = \<lparr>rbr = Finite 96000, rol = Finite 75000, rentabilidadeLiquida = Finite 78.125,
          retencaoIfoodPercentual = Finite 21.875, valorRetidoIfood = Finite 21000\<rparr>"
proof -
  have general:
    "(let v = number_or_zero (vbv d);
          p = number_or_zero (valoresPagosCliente d);
          l = number_or_zero (vrl d);
          j = number_or_zero (vrlj d);
          m = calculateMetrics d
      in rbr m = num_sub v p
         \<and> rol m = num_add l j
         \<and> rentabilidadeLiquida m =
             (if num_less (Finite 0) (rbr m) then num_mul (num_div (rol m) (rbr m)) (Finite 100)
              else Finite 0)
         \<and> retencaoIfoodPercentual m = num_sub (Finite 100) (rentabilidadeLiquida m)
         \<and> valorRetidoIfood m = num_sub (rbr m) (rol m))"
    by (simp add: calculateMetrics_def Let_def)
  have coerce: "number_or_zero None = Finite 0" "number_or_zero (Some NaN) = Finite 0"
    "number_or_zero (Some (Finite 0)) = Finite 0"
    by (simp_all add: number_or_zero_def)
  have example:
    "calculateMetrics
        \<lparr>vbv = Some (Finite 100000), valoresPagosCliente = Some (Finite 4000),
         vrl = Some (Finite 70000), vrlj = Some (Finite 5000), additionalValues = av,
         periodo = pe, tenantId = te\<rparr>
       = \<lparr>rbr = Finite 96000, rol = Finite 75000, rentabilidadeLiquida = Finite 78.125,
          retencaoIfoodPercentual = Finite 21.875, valorRetidoIfood = Finite 21000\<rparr>"
    by (simp add: calculateMetrics_def number_or_zero_def num_sub_def fl_def overflow_bound_def)
  show ?thesis using general coerce example by blast
qed

text \<open>
  C4. The result of \<^verbatim>\<open>validateFormData\<close> is valid exactly when its list of errors is
  empty. A \<open>vbv\<close> that is 0 after coercion always gives the error on the field \<open>vbv\<close>.
  When \<open>rol > rbr\<close> the warnings are exactly the one warning. The errors, and with them
  the validity, do not depend on \<open>vrl\<close> and \<open>vrlj\<close>, the only inputs of \<open>rol\<close>: the
  condition of the warning never adds an error, and a warning never changes the validity.
\<close>

theorem validateFormData_validity:
  "(isValid (validateFormData d) \<longleftrightarrow> errors (validateFormData d) = [])
   \<and> (number_or_zero (vbv d) = Finite 0 \<longrightarrow>
        \<lparr>field = ''vbv'', message = msg_vbv\<rparr> \<in> set (errors (validateFormData d)))
   \<and> (num_less (rbr (calculateMetrics d)) (rol (calculateMetrics d)) \<longrightarrow>
        warnings (validateFormData d) = [msg_rol])
   \<and> errors (validateFormData (d\<lparr>vrl := x, vrlj := y\<rparr>)) = errors (validateFormData d)
   \<and> isValid (validateFormData (d\<lparr>vrl := x, vrlj := y\<rparr>)) = isValid (validateFormData d)"
proof -
  have a: "isValid (validateFormData d) \<longleftrightarrow> errors (validateFormData d) = []"
    by (simp add: validateFormData_def Let_def)
  have b: "\<lparr>field = ''vbv'', message = msg_vbv\<rparr> \<in> set (errors (validateFormData d))"
    if "number_or_zero (vbv d) = Finite 0"
    using that by (simp add: validateFormData_def Let_def)
  have c: "warnings (validateFormData d) = [msg_rol]"
    if "num_less (rbr (calculateMetrics d)) (rol (calculateMetrics d))"
    using that by (simp add: validateFormData_def calculateMetrics_def Let_def)
  have e: "errors (validateFormData (d\<lparr>vrl := x, vrlj := y\<rparr>)) = errors (validateFormData d)"
    by (simp add: validateFormData_def Let_def)
  have f: "isValid (validateFormData (d\<lparr>vrl := x, vrlj := y\<rparr>)) = isValid (validateFormData d)"
    by (simp add: validateFormData_def Let_def)
  show ?thesis using a b c e f by blast
qed

text \<open>
  Two forms for C4: with \<open>vbv = 100\<close>, nothing paid by the client and \<open>vrl = 200\<close> the
  \<open>rol\<close> exceeds the \<open>rbr\<close>, the result carries the one warning, no error, and is valid;
  with \<open>vbv = 0\<close> instead, the error on \<open>vbv\<close> is there.
\<close>

theorem validateFormData_validity_witness:
  "num_less (rbr (calculateMetrics form1)) (rol (calculateMetrics form1))
   \<and> warnings (validateFormData form1) = [msg_rol]
   \<and> errors (validateFormData form1) = []
   \<and> isValid (validateFormData form1)
   \<and> number_or_zero (vbv (form1\<lparr>vbv := Some (Finite 0)\<rparr>)) = Finite 0
   \<and> \<lparr>field = ''vbv'', message = msg_vbv\<rparr>
       \<in> set (errors (validateFormData (form1\<lparr>vbv := Some (Finite 0)\<rparr>)))"
proof -
  have h1: "num_less (rbr (calculateMetrics form1)) (rol (calculateMetrics form1))"
    by (simp add: form1_def calculateMetrics_def number_or_zero_def num_sub_def fl_def
        overflow_bound_def Let_def)
  have h2: "number_or_zero (vbv (form1\<lparr>vbv := Some (Finite 0)\<rparr>)) = Finite 0"
    by (simp add: number_or_zero_def)
  have e: "errors (validateFormData form1) = []"
    by (simp add: form1_def validateFormData_def number_or_zero_def num_sub_def fl_def
        overflow_bound_def Let_def)
  have w: "warnings (validateFormData form1) = [msg_rol]"
    using validateFormData_validity [of form1] h1 by blast
  have v: "isValid (validateFormData form1)"
    using validateFormData_validity [of form1] e by blast
  have b: "\<lparr>field = ''vbv'', message = msg_vbv\<rparr>
       \<in> set (errors (validateFormData (form1\<lparr>vbv := Some (Finite 0)\<rparr>)))"
    using validateFormData_validity [of "form1\<lparr>vbv := Some (Finite 0)\<rparr>"] h2 by blast
  show ?thesis using h1 h2 e w v b by blast
qed

section \<open>The persistence layer\<close>

text \<open>
  C8, as the specification states it, fails: two calls need not leave what one call
  leaves. From a store that holds an analysis in the remote table and in the local list
  (saved while the remote was down, then synchronised), a delete that reaches the remote
  followed by one that falls back empties both places; one call alone, on either path,
  leaves the record in the other place.
\<close>

theorem deleteAnalysis_mixed_paths_counterexample:
  "syncLocalStorageToSupabase env_up ''t1'' (snd (saveAnalysis env_down analysis1 empty_store))
     = both_store
   \<and> historicodeanalise (snd (deleteAnalysis env_up ''a1'' ''t1'' both_store)) = []
   \<and> localStorage (snd (deleteAnalysis env_up ''a1'' ''t1'' both_store)) (analyses_key ''t1'')
       = Some (Json_Analyses [analysis1])
   \<and> historicodeanalise (snd (deleteAnalysis env_down ''a1'' ''t1'' both_store))
       = [analysis_to_row analysis1]
   \<and> localStorage (snd (deleteAnalysis env_down ''a1'' ''t1'' both_store)) (analyses_key ''t1'')
       = Some (Json_Analyses [])
   \<and> historicodeanalise (snd (deleteAnalysis env_down ''a1'' ''t1''
        (snd (deleteAnalysis env_up ''a1'' ''t1'' both_store)))) = []
   \<and> localStorage (snd (deleteAnalysis env_down ''a1'' ''t1''
        (snd (deleteAnalysis env_up ''a1'' ''t1'' both_store)))) (analyses_key ''t1'')
       = Some (Json_Analyses [])
   \<and> snd (deleteAnalysis env_down ''a1'' ''t1''
        (snd (deleteAnalysis env_up ''a1'' ''t1'' both_store)))
       \<noteq> snd (deleteAnalysis env_up ''a1'' ''t1'' both_store)
   \<and> snd (deleteAnalysis env_down ''a1'' ''t1''
        (snd (deleteAnalysis env_up ''a1'' ''t1'' both_store)))
       \<noteq> snd (deleteAnalysis env_down ''a1'' ''t1'' both_store)"
proof -
  let ?k = "analyses_key ''t1''"
  let ?up = "snd (deleteAnalysis env_up ''a1'' ''t1'' both_store)"
  let ?down = "snd (deleteAnalysis env_down ''a1'' ''t1'' both_store)"
  let ?both = "snd (deleteAnalysis env_down ''a1'' ''t1'' ?up)"
  have img: "analysis_image analysis1 = analysis1"
    by (rule analysis1_image)
  have r: "syncLocalStorageToSupabase env_up ''t1''
      (snd (saveAnalysis env_down analysis1 empty_store)) = both_store"
    by (simp add: syncLocalStorageToSupabase_def saveAnalysis_def saveAnalysis_remote_def
        read_array_def upsert_rows_def upsert_row_def env_up_def env_down_def empty_store_def
        both_store_def isSupabaseAvailable_def img)
      (simp add: analysis1_def)
  have up: "?up = both_store\<lparr>historicodeanalise := []\<rparr>"
    by (simp add: deleteAnalysis_def deleteAnalysis_remote_def delete_rows_def env_up_def
        both_store_def isSupabaseAvailable_def analysis_to_row_def analysis1_def)
  have down: "?down = both_store\<lparr>localStorage := (localStorage both_store)(?k \<mapsto> Json_Analyses [])\<rparr>"
    by (simp add: deleteAnalysis_def deleteAnalysis_remote_def read_array_def env_down_def
        both_store_def isSupabaseAvailable_def analysis1_def)
  have both: "?both = both_store\<lparr>historicodeanalise := [],
      localStorage := (localStorage both_store)(?k \<mapsto> Json_Analyses [])\<rparr>"
    unfolding up
    by (simp add: deleteAnalysis_def deleteAnalysis_remote_def read_array_def env_down_def
        both_store_def isSupabaseAvailable_def analysis1_def)
  have u1: "historicodeanalise ?up = []" unfolding up by simp
  have u2: "localStorage ?up ?k = Some (Json_Analyses [analysis1])"
    unfolding up by (simp add: both_store_def)
  have d1: "historicodeanalise ?down = [analysis_to_row analysis1]"
    unfolding down by (simp add: both_store_def)
  have d2: "localStorage ?down ?k = Some (Json_Analyses [])" unfolding down by simp
  have b1: "historicodeanalise ?both = []" unfolding both by simp
  have b2: "localStorage ?both ?k = Some (Json_Analyses [])" unfolding both by simp
  have n1: "?both \<noteq> ?up"
  proof
    assume "?both = ?up"
    then have "localStorage ?both ?k = localStorage ?up ?k" by simp
    then show False by (simp add: u2 b2)
  qed
  have n2: "?both \<noteq> ?down"
  proof
    assume "?both = ?down"
    then have "historicodeanalise ?both = historicodeanalise ?down" by simp
    then show False by (simp add: d1 b1)
  qed
  show ?thesis using r u1 u2 d1 d2 b1 b2 n1 n2 by blast
qed

text \<open>
  C8, amended. \<^verbatim>\<open>deleteAnalysis\<close> is idempotent when the second call takes the path
  the first took: for every id, tenant and store, if both calls run in a browser or both
  outside one, and both reach the remote or both fall back to the local list, the second
  call returns what the first returned and leaves the remote table and the local store as
  the first left them.
\<close>

theorem deleteAnalysis_idempotent_same_path:
  assumes "hasWindow e1 = hasWindow e2"
    and "(deleteAnalysis_remote e1 i t s \<noteq> None) =
         (deleteAnalysis_remote e2 i t (snd (deleteAnalysis e1 i t s)) \<noteq> None)"
  shows "deleteAnalysis e2 i t (snd (deleteAnalysis e1 i t s)) = deleteAnalysis e1 i t s
         \<and> snd (deleteAnalysis e2 i t (snd (deleteAnalysis e1 i t s)))
             = snd (deleteAnalysis e1 i t s)"
proof -
  have "(isSupabaseAvailable e1 \<and> remoteOk e1) = (isSupabaseAvailable e2 \<and> remoteOk e2)"
    using assms(2) by (auto simp: deleteAnalysis_remote_def split: if_splits)
  with assms(1) have "deleteAnalysis e2 i t (snd (deleteAnalysis e1 i t s)) =
      deleteAnalysis e1 i t (snd (deleteAnalysis e1 i t s))"
    by (rule deleteAnalysis_same_path)
  then show ?thesis by (simp add: deleteAnalysis_twice)
qed

text \<open>
  Two pairs of calls for C8 on the store that holds the analysis in both places: both
  calls on the fallback, the first with the remote failing and the second with the remote
  not configured; and both calls reaching the remote.
\<close>

theorem deleteAnalysis_idempotent_same_path_witness:
  "hasWindow env_down = hasWindow env_unconfigured
   \<and> deleteAnalysis_remote env_down ''a1'' ''t1'' both_store = None
   \<and> deleteAnalysis_remote env_unconfigured ''a1'' ''t1''
        (snd (deleteAnalysis env_down ''a1'' ''t1'' both_store)) = None
   \<and> deleteAnalysis env_unconfigured ''a1'' ''t1''
        (snd (deleteAnalysis env_down ''a1'' ''t1'' both_store))
       = deleteAnalysis env_down ''a1'' ''t1'' both_store
   \<and> localStorage (snd (deleteAnalysis env_unconfigured ''a1'' ''t1''
        (snd (deleteAnalysis env_down ''a1'' ''t1'' both_store)))) (analyses_key ''t1'')
       = Some (Json_Analyses [])
   \<and> deleteAnalysis_remote env_up ''a1'' ''t1'' both_store \<noteq> None
   \<and> deleteAnalysis env_up ''a1'' ''t1'' (snd (deleteAnalysis env_up ''a1'' ''t1'' both_store))
       = deleteAnalysis env_up ''a1'' ''t1'' both_store"
proof -
  have w: "hasWindow env_down = hasWindow env_unconfigured"
    by (simp add: env_down_def env_unconfigured_def)
  have r1: "deleteAnalysis_remote env_down ''a1'' ''t1'' s = None" for s
    by (simp add: deleteAnalysis_remote_def env_down_def)
  have r2: "deleteAnalysis_remote env_unconfigured ''a1'' ''t1'' s = None" for s
    by (simp add: deleteAnalysis_remote_def env_unconfigured_def isSupabaseAvailable_def)
  have r3: "deleteAnalysis_remote env_up ''a1'' ''t1'' s \<noteq> None" for s
    by (simp add: deleteAnalysis_remote_def env_up_def isSupabaseAvailable_def)
  have fallback: "deleteAnalysis env_unconfigured ''a1'' ''t1''
        (snd (deleteAnalysis env_down ''a1'' ''t1'' both_store))
       = deleteAnalysis env_down ''a1'' ''t1'' both_store"
    using deleteAnalysis_idempotent_same_path [OF w, of "''a1''" "''t1''" both_store]
    by (simp add: r1 r2)
  have remote: "deleteAnalysis env_up ''a1'' ''t1''
        (snd (deleteAnalysis env_up ''a1'' ''t1'' both_store))
       = deleteAnalysis env_up ''a1'' ''t1'' both_store"
    using deleteAnalysis_idempotent_same_path [of env_up env_up "''a1''" "''t1''" both_store]
    by (simp add: r3)
  have hw: "hasWindow env_down" by (simp add: env_down_def)
  have l: "localStorage (snd (deleteAnalysis env_down ''a1'' ''t1'' both_store))
      (analyses_key ''t1'') = Some (Json_Analyses [])"
    by (simp add: deleteAnalysis_def r1 hw read_array_def both_store_def analysis1_def)
  show ?thesis using w r1 r2 r3 fallback remote l by simp
qed

text \<open>
  C9. \<^verbatim>\<open>syncLocalStorageToSupabase\<close> never changes the local store. Run again in the
  same surroundings, or run again after a run that reached the remote, it changes
  nothing. It keeps the \<^verbatim>\<open>id\<close>s of the remote table distinct, so two runs leave no two
  remote records with one \<^verbatim>\<open>id\<close>; and a run that reaches the remote leaves every local
  record's \<^verbatim>\<open>id\<close> in the remote table.
\<close>

theorem sync_idempotent_nondestructive:
  "localStorage (syncLocalStorageToSupabase e t s) = localStorage s
   \<and> syncLocalStorageToSupabase e t (syncLocalStorageToSupabase e t s) =
       syncLocalStorageToSupabase e t s
   \<and> (isSupabaseAvailable e1 \<and> remoteOk e1 \<longrightarrow>
        syncLocalStorageToSupabase e2 t (syncLocalStorageToSupabase e1 t s) =
        syncLocalStorageToSupabase e1 t s)
   \<and> (distinct (map h_id (historicodeanalise s)) \<longrightarrow>
        distinct (map h_id (historicodeanalise
          (syncLocalStorageToSupabase e2 t (syncLocalStorageToSupabase e1 t s)))))
   \<and> (isSupabaseAvailable e \<and> remoteOk e
        \<and> localStorage s (analyses_key t) = Some (Json_Analyses xs) \<longrightarrow>
        set (map a_id xs)
          \<subseteq> set (map h_id (historicodeanalise (syncLocalStorageToSupabase e t s))))"
  using sync_local [of e t s] sync_idem [of e t s] sync_after_success [of e1 e2 t s]
    sync_distinct [of "syncLocalStorageToSupabase e1 t s" e2 t] sync_distinct [of s e1 t]
    sync_covers [of e s t xs]
  by blast

text \<open>
  A store for C9: one analysis saved while the remote was down, so that it sits in the
  local list of its tenant and the remote table is empty. Two runs that reach the remote
  leave one remote row, the row of that analysis, and the local list as it was.
\<close>

theorem sync_idempotent_nondestructive_witness:
  "isSupabaseAvailable env_up \<and> remoteOk env_up
   \<and> distinct (map h_id (historicodeanalise
        (run [(env_down, SaveAnalysis analysis1)] empty_store)))
   \<and> localStorage (run [(env_down, SaveAnalysis analysis1)] empty_store) (analyses_key ''t1'')
       = Some (Json_Analyses [analysis1])
   \<and> historicodeanalise
        (syncLocalStorageToSupabase env_up ''t1''
          (syncLocalStorageToSupabase env_up ''t1''
            (run [(env_down, SaveAnalysis analysis1)] empty_store)))
       = [analysis_to_row analysis1]
   \<and> localStorage
        (syncLocalStorageToSupabase env_up ''t1''
          (syncLocalStorageToSupabase env_up ''t1''
            (run [(env_down, SaveAnalysis analysis1)] empty_store))) (analyses_key ''t1'')
       = Some (Json_Analyses [analysis1])"
proof -
  define s0 where "s0 = run [(env_down, SaveAnalysis analysis1)] empty_store"
  have s0: "s0 = \<lparr>Usuario = [], historicodeanalise = [],
      localStorage = [analyses_key ''t1'' \<mapsto> Json_Analyses [analysis1]]\<rparr>"
    by (simp add: s0_def run_def saveAnalysis_def saveAnalysis_remote_def read_array_def
        env_down_def empty_store_def isSupabaseAvailable_def analysis1_image)
      (simp add: analysis1_def)
  have up: "isSupabaseAvailable env_up \<and> remoteOk env_up"
    by (simp add: env_up_def isSupabaseAvailable_def)
  have d: "distinct (map h_id (historicodeanalise s0))" by (simp add: s0)
  have l: "localStorage s0 (analyses_key ''t1'') = Some (Json_Analyses [analysis1])"
    by (simp add: s0)
  have once: "historicodeanalise (syncLocalStorageToSupabase env_up ''t1'' s0)
      = [analysis_to_row analysis1]"
    using up by (simp add: s0 syncLocalStorageToSupabase_def upsert_rows_def upsert_row_def)
  have twice: "syncLocalStorageToSupabase env_up ''t1'' (syncLocalStorageToSupabase env_up ''t1'' s0)
      = syncLocalStorageToSupabase env_up ''t1'' s0"
    using sync_idempotent_nondestructive [of env_up "''t1''" s0] by blast
  have loc: "localStorage (syncLocalStorageToSupabase env_up ''t1'' s0) = localStorage s0"
    using sync_idempotent_nondestructive [of env_up "''t1''" s0] by blast
  show ?thesis
    unfolding s0_def [symmetric] twice using up d l once loc by simp
qed

text \<open>
  C6. The local lists are kept under one key per tenant, the prefix followed by the
  tenant id, and different tenants have different keys. From a store whose local lists
  hold only records of their own tenant (the empty local store is one), after any
  sequence of calls of the layer, in any surroundings, the lists still do, and
  \<^verbatim>\<open>loadAnalyses\<close> for a tenant returns only records of that tenant, from the remote
  table or from the local list.
\<close>

theorem loadAnalyses_tenant_isolation:
  assumes "local_partitioned s"
  shows "list_all (\<lambda>a. a_tenantId a = t1) (loadAnalyses e t1 (run cs s))
         \<and> local_partitioned (run cs s)
         \<and> analyses_key t1 = ''ifood-analyses-'' @ t1
         \<and> (analyses_key t1 = analyses_key t2 \<longleftrightarrow> t1 = t2)"
proof -
  have inv: "local_partitioned (run cs s)"
    using assms by (rule run_partitioned)
  then have "list_all (\<lambda>a. a_tenantId a = t1) (loadAnalyses e t1 (run cs s))"
    by (rule loadAnalyses_partitioned)
  then show ?thesis
    using inv by (simp add: analyses_key_inj) (simp add: analyses_key_def)
qed

text \<open>
  A run for C6: from the empty store, with the remote down, an analysis of tenant \<open>t1\<close>
  and one of tenant \<open>t2\<close> are saved; the read for \<open>t1\<close> returns the first alone.
\<close>

theorem loadAnalyses_tenant_isolation_witness:
  "local_partitioned empty_store
   \<and> list_all (\<lambda>a. a_tenantId a = ''t1'')
        (loadAnalyses env_down ''t1''
          (run [(env_down, SaveAnalysis analysis1), (env_down, SaveAnalysis analysis2)]
            empty_store))
   \<and> loadAnalyses env_down ''t1''
        (run [(env_down, SaveAnalysis analysis1), (env_down, SaveAnalysis analysis2)]
          empty_store) = [analysis1]"
proof -
  have h: "local_partitioned empty_store"
    unfolding empty_store_def by (rule empty_partitioned)
  have "list_all (\<lambda>a. a_tenantId a = ''t1'')
        (loadAnalyses env_down ''t1''
          (run [(env_down, SaveAnalysis analysis1), (env_down, SaveAnalysis analysis2)]
            empty_store))"
    using loadAnalyses_tenant_isolation [OF h] by blast
  moreover have "loadAnalyses env_down ''t1''
        (run [(env_down, SaveAnalysis analysis1), (env_down, SaveAnalysis analysis2)]
          empty_store) = [analysis1]"
    by (simp add: run_def saveAnalysis_def saveAnalysis_remote_def read_array_def
        loadAnalyses_def loadAnalyses_remote_def env_down_def empty_store_def
        isSupabaseAvailable_def analyses_key_def analysis1_image analysis2_image)
      (simp add: analysis1_def analysis2_def)
  ultimately show ?thesis using h by blast
qed

text \<open>
  C1, as the specification states it, fails, in two ways. The round trip does not hold
  whatever path each call takes: an analysis saved while the remote answers goes to the
  remote table only, and a load made while the remote is down reads the local list, which
  is empty. And it does not hold for every record: the local list is written with
  \<^verbatim>\<open>JSON.stringify\<close> and read with \<^verbatim>\<open>JSON.parse\<close>, so an analysis whose metrics hold
  \<open>NaN\<close> comes back with \<^verbatim>\<open>null\<close> in their place, saved and loaded on the local path.
\<close>

theorem roundtrip_mixed_paths_counterexample:
  "hasWindow env_up \<and> hasWindow env_down
   \<and> saveAnalysis env_up analysis1 empty_store
       = (Inr (), empty_store\<lparr>historicodeanalise := [analysis_to_row analysis1]\<rparr>)
   \<and> loadAnalyses env_down (a_tenantId analysis1)
        (snd (saveAnalysis env_up analysis1 empty_store)) = []
   \<and> analysis1 \<notin> set (loadAnalyses env_down (a_tenantId analysis1)
        (snd (saveAnalysis env_up analysis1 empty_store)))
   \<and> rbr (calculateMetrics form_inf) = NaN
   \<and> fst (saveAnalysis env_down analysis_nan empty_store) = Inr ()
   \<and> loadAnalyses env_down (a_tenantId analysis_nan)
        (snd (saveAnalysis env_down analysis_nan empty_store)) = [analysis_image analysis_nan]
   \<and> a_calculatedData (analysis_image analysis_nan)
       = JObject [(''rbr'', JNull), (''rol'', JNumber (Finite 200)),
                  (''rentabilidadeLiquida'', JNumber (Finite 0)),
                  (''retencaoIfoodPercentual'', JNumber (Finite 100)),
                  (''valorRetidoIfood'', JNull)]
   \<and> analysis_nan \<notin> set (loadAnalyses env_down (a_tenantId analysis_nan)
        (snd (saveAnalysis env_down analysis_nan empty_store)))"
proof -
  have mixed: "hasWindow env_up \<and> hasWindow env_down
   \<and> saveAnalysis env_up analysis1 empty_store
       = (Inr (), empty_store\<lparr>historicodeanalise := [analysis_to_row analysis1]\<rparr>)
   \<and> loadAnalyses env_down (a_tenantId analysis1)
        (snd (saveAnalysis env_up analysis1 empty_store)) = []
   \<and> analysis1 \<notin> set (loadAnalyses env_down (a_tenantId analysis1)
        (snd (saveAnalysis env_up analysis1 empty_store)))"
    by (simp add: saveAnalysis_def saveAnalysis_remote_def insert_row_def loadAnalyses_def
        loadAnalyses_remote_def env_up_def env_down_def empty_store_def isSupabaseAvailable_def)
  have m: "calculateMetrics form_inf =
      \<lparr>rbr = NaN, rol = Finite 200, rentabilidadeLiquida = Finite 0,
       retencaoIfoodPercentual = Finite 100, valorRetidoIfood = NaN\<rparr>"
    by (simp add: calculateMetrics_def form_inf_def number_or_zero_def num_sub_def fl_def
        overflow_bound_def Let_def)
  have sv: "saveAnalysis env_down analysis_nan empty_store =
      (Inr (), empty_store\<lparr>localStorage :=
         [analyses_key (a_tenantId analysis_nan) \<mapsto> Json_Analyses [analysis_image analysis_nan]]\<rparr>)"
    by (simp add: saveAnalysis_def saveAnalysis_remote_def read_array_def env_down_def
        empty_store_def isSupabaseAvailable_def)
  have ld: "loadAnalyses env_down (a_tenantId analysis_nan)
        (snd (saveAnalysis env_down analysis_nan empty_store)) = [analysis_image analysis_nan]"
    unfolding sv
    by (simp add: loadAnalyses_def loadAnalyses_remote_def env_down_def isSupabaseAvailable_def)
  have im: "a_calculatedData (analysis_image analysis_nan)
       = JObject [(''rbr'', JNull), (''rol'', JNumber (Finite 200)),
                  (''rentabilidadeLiquida'', JNumber (Finite 0)),
                  (''retencaoIfoodPercentual'', JNumber (Finite 100)),
                  (''valorRetidoIfood'', JNull)]"
    by (simp add: analysis_image_def analysis_nan_def metrics_value_def m isFinite_def)
  have orig: "a_calculatedData analysis_nan \<noteq> a_calculatedData (analysis_image analysis_nan)"
    unfolding im by (simp add: analysis_nan_def metrics_value_def m)
  have ne: "analysis_nan \<noteq> analysis_image analysis_nan"
    using orig by auto
  have nin: "analysis_nan \<notin> set (loadAnalyses env_down (a_tenantId analysis_nan)
        (snd (saveAnalysis env_down analysis_nan empty_store)))"
    unfolding ld using ne by simp
  have f: "fst (saveAnalysis env_down analysis_nan empty_store) = Inr ()"
    by (simp add: sv)
  have r: "rbr (calculateMetrics form_inf) = NaN" by (simp add: m)
  show ?thesis using mixed r f ld im nin by blast
qed

text \<open>
  C1, amended. For every analysis \<open>a\<close> that JSON serialisation leaves unchanged (its form
  and metrics hold no \<open>NaN\<close>, no infinity and no \<^verbatim>\<open>undefined\<close>), in a browser, when
  \<^verbatim>\<open>saveAnalysis(a)\<close> returns normally and the \<^verbatim>\<open>loadAnalyses\<close> that follows for the
  tenant of \<open>a\<close> takes the path the save took (both the remote table, or both the local
  list), the list returned contains \<open>a\<close>.
\<close>

theorem saveAnalysis_loadAnalyses_same_path:
  assumes "hasWindow e1" and "hasWindow e2" and "t = a_tenantId a"
    and "analysis_image a = a"
    and "saveAnalysis e1 a s = (Inr (), s')"
    and "(saveAnalysis_remote e1 a s \<noteq> None) = (loadAnalyses_remote e2 t s' \<noteq> None)"
  shows "a \<in> set (loadAnalyses e2 t s')"
  using assms roundtrip_same_path [of e1 e2 a s s'] by simp

text \<open>
  The two paths of C1 from the empty store, for an analysis that is its own JSON image:
  saved and loaded while the remote answers, and saved and loaded while it is down.
\<close>

theorem saveAnalysis_loadAnalyses_same_path_witness:
  "hasWindow env_up \<and> hasWindow env_down \<and> ''t1'' = a_tenantId analysis1
   \<and> analysis_image analysis1 = analysis1
   \<and> saveAnalysis env_up analysis1 empty_store
       = (Inr (), empty_store\<lparr>historicodeanalise := [analysis_to_row analysis1]\<rparr>)
   \<and> saveAnalysis_remote env_up analysis1 empty_store \<noteq> None
   \<and> loadAnalyses_remote env_up ''t1''
        (empty_store\<lparr>historicodeanalise := [analysis_to_row analysis1]\<rparr>) \<noteq> None
   \<and> analysis1 \<in> set (loadAnalyses env_up ''t1''
        (empty_store\<lparr>historicodeanalise := [analysis_to_row analysis1]\<rparr>))
   \<and> saveAnalysis env_down analysis1 empty_store
       = (Inr (), empty_store\<lparr>localStorage :=
            [analyses_key ''t1'' \<mapsto> Json_Analyses [analysis1]]\<rparr>)
   \<and> saveAnalysis_remote env_down analysis1 empty_store = None
   \<and> loadAnalyses_remote env_down ''t1''
        (empty_store\<lparr>localStorage := [analyses_key ''t1'' \<mapsto> Json_Analyses [analysis1]]\<rparr>)
       = None
   \<and> analysis1 \<in> set (loadAnalyses env_down ''t1''
        (empty_store\<lparr>localStorage := [analyses_key ''t1'' \<mapsto> Json_Analyses [analysis1]]\<rparr>))"
proof -
  have w: "hasWindow env_up" "hasWindow env_down" "''t1'' = a_tenantId analysis1"
    by (simp_all add: env_up_def env_down_def analysis1_def)
  have img: "analysis_image analysis1 = analysis1"
    by (rule analysis1_image)
  have su: "saveAnalysis env_up analysis1 empty_store
       = (Inr (), empty_store\<lparr>historicodeanalise := [analysis_to_row analysis1]\<rparr>)"
    by (simp add: saveAnalysis_def saveAnalysis_remote_def insert_row_def env_up_def
        empty_store_def isSupabaseAvailable_def)
  have ru: "saveAnalysis_remote env_up analysis1 empty_store \<noteq> None"
    by (simp add: saveAnalysis_remote_def insert_row_def env_up_def empty_store_def
        isSupabaseAvailable_def)
  have lu: "loadAnalyses_remote env_up ''t1''
        (empty_store\<lparr>historicodeanalise := [analysis_to_row analysis1]\<rparr>) \<noteq> None"
    by (simp add: loadAnalyses_remote_def env_up_def isSupabaseAvailable_def)
  have sd: "saveAnalysis env_down analysis1 empty_store
       = (Inr (), empty_store\<lparr>localStorage :=
            [analyses_key ''t1'' \<mapsto> Json_Analyses [analysis1]]\<rparr>)"
    by (simp add: saveAnalysis_def saveAnalysis_remote_def read_array_def env_down_def
        empty_store_def isSupabaseAvailable_def img)
      (simp add: analysis1_def)
  have rd: "saveAnalysis_remote env_down analysis1 empty_store = None"
    by (simp add: saveAnalysis_remote_def env_down_def isSupabaseAvailable_def)
  have ld: "loadAnalyses_remote env_down ''t1''
        (empty_store\<lparr>localStorage := [analyses_key ''t1'' \<mapsto> Json_Analyses [analysis1]]\<rparr>)
       = None"
    by (simp add: loadAnalyses_remote_def env_down_def isSupabaseAvailable_def)
  have up: "analysis1 \<in> set (loadAnalyses env_up ''t1''
        (empty_store\<lparr>historicodeanalise := [analysis_to_row analysis1]\<rparr>))"
    using saveAnalysis_loadAnalyses_same_path [OF w(1) w(1) w(3) img su] ru lu by simp
  have down: "analysis1 \<in> set (loadAnalyses env_down ''t1''
        (empty_store\<lparr>localStorage := [analyses_key ''t1'' \<mapsto> Json_Analyses [analysis1]]\<rparr>))"
    using saveAnalysis_loadAnalyses_same_path [OF w(2) w(2) w(3) img sd] rd ld by simp
  show ?thesis using w img su ru lu sd rd ld up down by blast
qed

text \<open>
  C5, as the specification states it, fails for \<^verbatim>\<open>saveAnalysis\<close>: when its remote
  insert succeeds the analysis is in the remote table and nothing is written to the local
  store.
\<close>

theorem saveAnalysis_no_mirror_counterexample:
  "saveAnalysis_remote env_up analysis1 empty_store = Some [analysis_to_row analysis1]
   \<and> historicodeanalise (snd (saveAnalysis env_up analysis1 empty_store))
       = [analysis_to_row analysis1]
   \<and> localStorage (snd (saveAnalysis env_up analysis1 empty_store))
        (analyses_key (a_tenantId analysis1)) = None
   \<and> localStorage (snd (saveAnalysis env_up analysis1 empty_store)) = Map.empty"
  by (simp add: saveAnalysis_def saveAnalysis_remote_def insert_row_def env_up_def
      empty_store_def isSupabaseAvailable_def)

text \<open>
  C5, amended. In a browser, \<^verbatim>\<open>saveUser\<close> whose remote upsert succeeds also writes the
  user under the local key of the user, and on the fallback it makes that one local write
  and leaves the remote table as it was. \<^verbatim>\<open>saveAnalysis\<close> whose remote insert succeeds adds
  the row to the remote table and leaves the local store as it was; on the fallback it
  leaves the remote table as it was and either throws with the local store unchanged or
  makes the one local write that appends the analysis to the list of its tenant (the
  list is written as JSON, so what is stored is the image of each element).
\<close>

theorem write_through_saveUser_only:
  assumes "hasWindow e"
  shows
    "(saveUser_remote e u s \<noteq> None \<longrightarrow>
        localStorage (saveUser e u s) = (localStorage s)(user_key \<mapsto> Json_User u)
        \<and> Usuario (saveUser e u s) = upsert_usuario (user_to_row u) (Usuario s))
     \<and> (saveUser_remote e u s = None \<longrightarrow>
        localStorage (saveUser e u s) = (localStorage s)(user_key \<mapsto> Json_User u)
        \<and> Usuario (saveUser e u s) = Usuario s)
     \<and> historicodeanalise (saveUser e u s) = historicodeanalise s
     \<and> (saveAnalysis_remote e a s \<noteq> None \<longrightarrow>
        fst (saveAnalysis e a s) = Inr ()
        \<and> localStorage (snd (saveAnalysis e a s)) = localStorage s
        \<and> historicodeanalise (snd (saveAnalysis e a s))
            = historicodeanalise s @ [analysis_to_row a])
     \<and> (saveAnalysis_remote e a s = None \<longrightarrow>
        historicodeanalise (snd (saveAnalysis e a s)) = historicodeanalise s
        \<and> (case read_array (localStorage s (analyses_key (a_tenantId a))) of
             Inl x \<Rightarrow>
               fst (saveAnalysis e a s) = Inl x
               \<and> localStorage (snd (saveAnalysis e a s)) = localStorage s
           | Inr arr \<Rightarrow>
               fst (saveAnalysis e a s) = Inr ()
               \<and> localStorage (snd (saveAnalysis e a s))
                   = (localStorage s)(analyses_key (a_tenantId a) \<mapsto>
                       Json_Analyses (map analysis_image (arr @ [a])))))
     \<and> Usuario (snd (saveAnalysis e a s)) = Usuario s"
proof -
  have u1: "localStorage (saveUser e u s) = (localStorage s)(user_key \<mapsto> Json_User u)
        \<and> Usuario (saveUser e u s) = upsert_usuario (user_to_row u) (Usuario s)"
    if "saveUser_remote e u s \<noteq> None"
    using that assms by (auto simp: saveUser_def saveUser_remote_def split: if_splits)
  have u2: "localStorage (saveUser e u s) = (localStorage s)(user_key \<mapsto> Json_User u)
        \<and> Usuario (saveUser e u s) = Usuario s"
    if "saveUser_remote e u s = None"
    using that assms by (simp add: saveUser_def)
  have u3: "historicodeanalise (saveUser e u s) = historicodeanalise s"
    by (simp add: saveUser_def split: option.splits)
  have a1: "fst (saveAnalysis e a s) = Inr ()
        \<and> localStorage (snd (saveAnalysis e a s)) = localStorage s
        \<and> historicodeanalise (snd (saveAnalysis e a s))
            = historicodeanalise s @ [analysis_to_row a]"
    if "saveAnalysis_remote e a s \<noteq> None"
    using that assms
    by (auto simp: saveAnalysis_def saveAnalysis_remote_def insert_row_def split: if_splits)
  have a2: "historicodeanalise (snd (saveAnalysis e a s)) = historicodeanalise s
        \<and> (case read_array (localStorage s (analyses_key (a_tenantId a))) of
             Inl x \<Rightarrow>
               fst (saveAnalysis e a s) = Inl x
               \<and> localStorage (snd (saveAnalysis e a s)) = localStorage s
           | Inr arr \<Rightarrow>
               fst (saveAnalysis e a s) = Inr ()
               \<and> localStorage (snd (saveAnalysis e a s))
                   = (localStorage s)(analyses_key (a_tenantId a) \<mapsto>
                       Json_Analyses (map analysis_image (arr @ [a]))))"
    if "saveAnalysis_remote e a s = None"
    using that assms by (simp add: saveAnalysis_def Let_def split: sum.splits)
  have a3: "Usuario (snd (saveAnalysis e a s)) = Usuario s"
    by (simp add: saveAnalysis_def Let_def split: option.splits sum.splits)
  show ?thesis using u1 u2 u3 a1 a2 a3 by blast
qed

text \<open>
  The two writes of C5 from the empty store while the remote answers: the user is in the
  remote table and under the local key; the analysis is in the remote table and the local
  store is still empty.
\<close>

theorem write_through_saveUser_only_witness:
  "hasWindow env_up
   \<and> saveUser_remote env_up user1 empty_store \<noteq> None
   \<and> localStorage (saveUser env_up user1 empty_store) user_key = Some (Json_User user1)
   \<and> Usuario (saveUser env_up user1 empty_store) = [user_to_row user1]
   \<and> saveAnalysis_remote env_up analysis1 empty_store \<noteq> None
   \<and> localStorage (snd (saveAnalysis env_up analysis1 empty_store)) = Map.empty
   \<and> historicodeanalise (snd (saveAnalysis env_up analysis1 empty_store))
       = [analysis_to_row analysis1]"
proof -
  have w: "hasWindow env_up" by (simp add: env_up_def)
  have ru: "saveUser_remote env_up user1 empty_store \<noteq> None"
    by (simp add: saveUser_remote_def env_up_def isSupabaseAvailable_def)
  have ra: "saveAnalysis_remote env_up analysis1 empty_store \<noteq> None"
    by (simp add: saveAnalysis_remote_def insert_row_def env_up_def empty_store_def
        isSupabaseAvailable_def)
  note t = write_through_saveUser_only [OF w, of user1 empty_store analysis1]
  have lu: "localStorage (saveUser env_up user1 empty_store)
      = (localStorage empty_store)(user_key \<mapsto> Json_User user1)"
    using t ru by blast
  have uu: "Usuario (saveUser env_up user1 empty_store)
      = upsert_usuario (user_to_row user1) (Usuario empty_store)"
    using t ru by blast
  have la: "localStorage (snd (saveAnalysis env_up analysis1 empty_store))
      = localStorage empty_store"
    using t ra by blast
  have ha: "historicodeanalise (snd (saveAnalysis env_up analysis1 empty_store))
      = historicodeanalise empty_store @ [analysis_to_row analysis1]"
    using t ra by blast
  show ?thesis
    using w ru ra by (simp add: lu uu la ha) (simp add: empty_store_def upsert_usuario_def)
qed

end
